theory Spec2Isabelle
  imports Main
begin

section \<open>Data model\<close>

text \<open>
  The development embeds the request handlers of \<^verbatim>\<open>routes/auth.js\<close> (register, verify-email,
  login, forgot-password, reset-password, change-password), the password-strength checker of
  \<^verbatim>\<open>config/security.js\<close> and the MFA handlers of \<^verbatim>\<open>routes/mfa.js\<close> (verify-setup,
  verify-backup) together with \<^verbatim>\<open>verifyBackupCode\<close>.

  Conventions.
  \<^item> Time is the millisecond count returned by \<^verbatim>\<open>Date.now()\<close>, a natural number; a handler
    reads the clock once per request.
  \<^item> A JavaScript string is a list of code units (\<open>string\<close>); \<^verbatim>\<open>.length\<close> is \<open>length\<close>.
  \<^item> A field that may be \<^verbatim>\<open>null\<close> or missing is an \<open>option\<close>; the flags
    \<^verbatim>\<open>mfaEnabled\<close> and \<^verbatim>\<open>mfaSetupPending\<close> are only ever tested for truthiness, so a missing
    flag is \<open>False\<close>.
  \<^item> The \<^verbatim>\<open>users\<close> collection is a list of documents in insertion order; \<^verbatim>\<open>findOne\<close>,
    \<^verbatim>\<open>updateOne\<close> and \<^verbatim>\<open>deleteOne\<close> act on the first document matching the filter.
  \<^item> The \<^verbatim>\<open>_id\<close> of a document is an ObjectId, which the database driver gives to every
    document inserted without one (all those the repository inserts), or a string. A filter on
    \<^verbatim>\<open>_id\<close> compares type and value, so a string never matches an ObjectId. \<open>idString\<close> is
    \<^verbatim>\<open>_id.toString()\<close>: the 24 hexadecimal digits of an ObjectId, the string itself otherwise.
  \<^item> Library calls (bcrypt, speakeasy, reCAPTCHA, mail delivery, random generators) are not
    part of the repository: their functions are parameters (\<open>lib\<close>) and their per-request
    results are inputs (\<open>env\<close>). The time-based code check of speakeasy reads the clock, so
    \<open>verifyMFAToken\<close> takes the time as its first argument.
  \<^item> A response is the HTTP status with the \<^verbatim>\<open>success\<close> flag, the \<^verbatim>\<open>message\<close> and the
    \<^verbatim>\<open>errors\<close> array of the JSON body; tokens and user views in the payload, and the
    audit-log writes, are left out.
\<close>

datatype docId = ObjectId nat | StringId string

definition hexDigit :: "nat \<Rightarrow> char" where
  "hexDigit d = ''0123456789abcdef'' ! (d mod 16)"

definition hex24 :: "nat \<Rightarrow> string" where
  "hex24 n = map (\<lambda>i. hexDigit (n div 16 ^ (23 - i))) [0..<24]"

definition idString :: "docId \<Rightarrow> string" where
  "idString i = (case i of ObjectId n \<Rightarrow> hex24 n | StringId s \<Rightarrow> s)"

definition isObjectId :: "docId \<Rightarrow> bool" where
  "isObjectId i = (case i of ObjectId n \<Rightarrow> True | StringId s \<Rightarrow> False)"

record historyItem =
  item_password :: string
  item_createdAt :: nat

record user =
  uid :: docId
  email :: string
  name :: string
  role :: string
  company :: "string option"
  password :: string
  isVerified :: bool
  verificationOTP :: "string option"
  otpExpiry :: "nat option"
  passwordHistory :: "historyItem list option"
  loginAttempts :: "nat option"
  lockUntil :: "nat option"
  lastLogin :: "nat option"
  createdAt :: nat
  updatedAt :: nat
  verifiedAt :: "nat option"
  mfaEnabled :: bool
  mfaSetupPending :: bool
  mfaSecret :: "string option"
  mfaBackupCodes :: "string list option"

record otpEntry =
  otp :: string
  expiry :: nat
  attempts :: nat

record resetEntry =
  reset_userId :: string
  reset_email :: string
  reset_expiry :: nat

record state =
  users :: "user list"
  otpStore :: "string \<rightharpoonup> otpEntry"
  passwordResetTokens :: "string \<rightharpoonup> resetEntry"

record lib =
  comparePassword :: "string \<Rightarrow> string \<Rightarrow> bool"
  hashPassword :: "string \<Rightarrow> string"
  verifyMFAToken :: "nat \<Rightarrow> string \<Rightarrow> string \<Rightarrow> bool"

record env =
  now :: nat
  validationErrors :: "string list"
  captchaIsValid :: bool
  captchaMessage :: string
  emailSuccess :: bool
  generatedOTP :: string
  generatedToken :: string

record response =
  status :: nat
  success :: bool
  message :: "string option"
  errors :: "string list"

definition reply :: "nat \<Rightarrow> bool \<Rightarrow> string \<Rightarrow> response" where
  "reply code ok msg = \<lparr>status = code, success = ok, message = Some msg, errors = []\<rparr>"

definition replyErrors :: "string list \<Rightarrow> response" where
  "replyErrors errs = \<lparr>status = 400, success = False, message = None, errors = errs\<rparr>"

subsection \<open>The users collection\<close>

fun findOne :: "('a \<Rightarrow> bool) \<Rightarrow> 'a list \<Rightarrow> 'a option" where
  "findOne p [] = None"
| "findOne p (d # ds) = (if p d then Some d else findOne p ds)"

fun updateOne :: "('a \<Rightarrow> bool) \<Rightarrow> ('a \<Rightarrow> 'a) \<Rightarrow> 'a list \<Rightarrow> 'a list" where
  "updateOne p f [] = []"
| "updateOne p f (d # ds) = (if p d then f d # ds else d # updateOne p f ds)"

fun deleteOne :: "('a \<Rightarrow> bool) \<Rightarrow> 'a list \<Rightarrow> 'a list" where
  "deleteOne p [] = []"
| "deleteOne p (d # ds) = (if p d then ds else d # deleteOne p ds)"

definition byEmail :: "string \<Rightarrow> user \<Rightarrow> bool" where
  "byEmail e u = (email u = e)"

text \<open>\<open>byId\<close> is the filter \<^verbatim>\<open>{ _id: v }\<close> for an id value \<open>v\<close> taken from a document or from
  \<^verbatim>\<open>insertedId\<close>; \<open>byIdString\<close> is the same filter for a string, as the handlers build it from
  \<^verbatim>\<open>resetData.userId\<close> and \<^verbatim>\<open>req.user.userId\<close>. \<open>insertOne\<close> gives the new document an ObjectId
  that no document of the collection has.\<close>

definition byId :: "docId \<Rightarrow> user \<Rightarrow> bool" where
  "byId i u = (uid u = i)"

definition byIdString :: "string \<Rightarrow> user \<Rightarrow> bool" where
  "byIdString s u = (uid u = StringId s)"

definition oidValue :: "docId \<Rightarrow> nat" where
  "oidValue i = (case i of ObjectId n \<Rightarrow> n | StringId s \<Rightarrow> 0)"

definition freshId :: "user list \<Rightarrow> docId" where
  "freshId us = ObjectId (Suc (foldr max (map (\<lambda>u. oidValue (uid u)) us) 0))"

definition driverIds :: "user list \<Rightarrow> bool" where
  "driverIds us = list_all (\<lambda>u. isObjectId (uid u)) us"

definition insertOne :: "user \<Rightarrow> user list \<Rightarrow> user list \<times> docId" where
  "insertOne u us = (us @ [u\<lparr>uid := freshId us\<rparr>], freshId us)"

section \<open>Password strength (config/security.js)\<close>

text \<open>\<^verbatim>\<open>SECURITY_CONFIG\<close> and \<^verbatim>\<open>checkPasswordStrength\<close>. The five entries of \<open>passwordChecks\<close> are
  the values of the \<^verbatim>\<open>checks\<close> object in its order: length, lowercase, uppercase, numbers,
  special.\<close>

definition MIN_LENGTH :: nat where "MIN_LENGTH = 8"
definition MAX_LENGTH :: nat where "MAX_LENGTH = 16"
definition PREVIOUS_PASSWORDS_COUNT :: nat where "PREVIOUS_PASSWORDS_COUNT = 5"
definition OTP_EXPIRES_IN :: nat where "OTP_EXPIRES_IN = 10 * 60 * 1000"

definition isLower :: "char \<Rightarrow> bool" where
  "isLower c = (97 \<le> (of_char c :: nat) \<and> (of_char c :: nat) \<le> 122)"

definition isUpper :: "char \<Rightarrow> bool" where
  "isUpper c = (65 \<le> (of_char c :: nat) \<and> (of_char c :: nat) \<le> 90)"

definition isDigit :: "char \<Rightarrow> bool" where
  "isDigit c = (48 \<le> (of_char c :: nat) \<and> (of_char c :: nat) \<le> 57)"

definition isSpecial :: "char \<Rightarrow> bool" where
  "isSpecial c = (c \<in> set ''@$!%*?&'')"

datatype strengthClass = weak | medium | strong

record strengthResult =
  score :: nat
  strength :: strengthClass
  checks :: "bool list"
  isValid :: bool

definition passwordChecks :: "string \<Rightarrow> bool list" where
  "passwordChecks pw =
     [MIN_LENGTH \<le> length pw \<and> length pw \<le> MAX_LENGTH,
      list_ex isLower pw,
      list_ex isUpper pw,
      list_ex isDigit pw,
      list_ex isSpecial pw]"

definition checkPasswordStrength :: "string \<Rightarrow> strengthResult" where
  "checkPasswordStrength pw =
     (let cs = passwordChecks pw;
          sc = length (filter (\<lambda>b. b) cs)
      in \<lparr>score = sc,
          strength = (if sc < 3 then weak else if sc < 5 then medium else strong),
          checks = cs,
          isValid = (sc = 5)\<rparr>)"

section \<open>Login (routes/auth.js)\<close>

text \<open>
  \<^verbatim>\<open>router.post('/login')\<close>, auth.js 250-384. \<open>orZero\<close> is \<^verbatim>\<open>user.loginAttempts || 0\<close>;
  \<open>isLocked\<close> is \<^verbatim>\<open>user.lockUntil && user.lockUntil > Date.now()\<close>; \<open>recordFailure\<close> and
  \<open>recordSuccess\<close> are the two \<^verbatim>\<open>$set\<close> updates of the handler.
\<close>

definition orZero :: "nat option \<Rightarrow> nat" where
  "orZero x = (case x of None \<Rightarrow> 0 | Some n \<Rightarrow> n)"

definition isLocked :: "user \<Rightarrow> nat \<Rightarrow> bool" where
  "isLocked u t = (case lockUntil u of None \<Rightarrow> False | Some l \<Rightarrow> l \<noteq> 0 \<and> l > t)"

definition LOCK_WINDOW :: nat where "LOCK_WINDOW = 15 * 60 * 1000"

definition invalidCredentials :: response where
  "invalidCredentials = reply 401 False ''Invalid credentials''"

definition accountLocked :: response where
  "accountLocked =
     reply 423 False ''Account is temporarily locked due to too many failed attempts''"

definition notVerified :: response where
  "notVerified = reply 401 False ''Please verify your email before logging in''"

definition loginSuccessful :: response where
  "loginSuccessful = reply 200 True ''Login successful''"

definition recordFailure :: "nat \<Rightarrow> user \<Rightarrow> user" where
  "recordFailure t u =
     (let newLoginAttempts = orZero (loginAttempts u) + 1
      in u\<lparr>loginAttempts := Some newLoginAttempts,
           lockUntil := (if newLoginAttempts \<ge> 5 then Some (t + LOCK_WINDOW) else None)\<rparr>)"

definition recordSuccess :: "nat \<Rightarrow> user \<Rightarrow> user" where
  "recordSuccess t u = u\<lparr>loginAttempts := Some 0, lockUntil := None, lastLogin := Some t\<rparr>"

definition login :: "lib \<Rightarrow> env \<Rightarrow> string \<Rightarrow> string \<Rightarrow> state \<Rightarrow> response \<times> state" where
  "login L E em pw st =
     (if validationErrors E \<noteq> [] then (replyErrors (validationErrors E), st)
      else if \<not> captchaIsValid E then (reply 400 False (captchaMessage E), st)
      else case findOne (byEmail em) (users st) of
        None \<Rightarrow> (invalidCredentials, st)
      | Some u \<Rightarrow>
          if isLocked u (now E) then (accountLocked, st)
          else if \<not> isVerified u then (notVerified, st)
          else if \<not> comparePassword L pw (password u) then
            (invalidCredentials,
             st\<lparr>users := updateOne (byEmail em) (recordFailure (now E)) (users st)\<rparr>)
          else
            (loginSuccessful,
             st\<lparr>users := updateOne (byEmail em) (recordSuccess (now E)) (users st)\<rparr>))"

text \<open>A sequence of login requests, each with its own environment, e-mail and password.\<close>

fun loginAll :: "lib \<Rightarrow> (env \<times> string \<times> string) list \<Rightarrow> state \<Rightarrow> response list \<times> state" where
  "loginAll L [] st = ([], st)"
| "loginAll L ((E, em, pw) # cs) st =
     (let (r, st1) = login L E em pw st;
          (rs, st2) = loginAll L cs st1
      in (r # rs, st2))"

section \<open>Registration and e-mail verification (routes/auth.js)\<close>

text \<open>
  \<^verbatim>\<open>router.post('/register')\<close>, auth.js 25-145. \<open>orNull\<close> is \<^verbatim>\<open>company || null\<close>. The one-time
  code is put into the store before the user document is inserted; when the delivery fails the
  inserted document is deleted again.
\<close>

definition orNull :: "string option \<Rightarrow> string option" where
  "orNull x = (case x of None \<Rightarrow> None | Some c \<Rightarrow> if c = [] then None else Some c)"

definition newUser :: "lib \<Rightarrow> env \<Rightarrow> string \<Rightarrow> string \<Rightarrow> string \<Rightarrow> string \<Rightarrow> string option \<Rightarrow> user" where
  "newUser L E em nm pw rl cpny =
     \<lparr>uid = ObjectId 0, email = em, name = nm, role = rl, company = orNull cpny,
      password = hashPassword L pw, isVerified = False,
      verificationOTP = Some (generatedOTP E),
      otpExpiry = Some (now E + OTP_EXPIRES_IN),
      passwordHistory = Some [\<lparr>item_password = hashPassword L pw, item_createdAt = now E\<rparr>],
      loginAttempts = Some 0, lockUntil = None, lastLogin = None,
      createdAt = now E, updatedAt = now E, verifiedAt = None,
      mfaEnabled = False, mfaSetupPending = False, mfaSecret = None, mfaBackupCodes = None\<rparr>"

definition weakPassword :: response where
  "weakPassword = reply 400 False ''Password does not meet security requirements''"

definition deliveryFailed :: response where
  "deliveryFailed = reply 500 False ''Failed to send verification email''"

definition register ::
  "lib \<Rightarrow> env \<Rightarrow> string \<Rightarrow> string \<Rightarrow> string \<Rightarrow> string \<Rightarrow> string option \<Rightarrow> state
    \<Rightarrow> response \<times> state" where
  "register L E em nm pw rl cpny st =
     (if validationErrors E \<noteq> [] then (replyErrors (validationErrors E), st)
      else if \<not> captchaIsValid E then (reply 400 False (captchaMessage E), st)
      else if \<not> isValid (checkPasswordStrength pw) then (weakPassword, st)
      else case findOne (byEmail em) (users st) of
        Some existingUser \<Rightarrow> (reply 400 False ''User already exists'', st)
      | None \<Rightarrow>
          (let st1 = st\<lparr>otpStore := (otpStore st)(em \<mapsto>
                       \<lparr>otp = generatedOTP E, expiry = now E + OTP_EXPIRES_IN, attempts = 0\<rparr>)\<rparr>;
               (us, insertedId) = insertOne (newUser L E em nm pw rl cpny) (users st1)
           in if \<not> emailSuccess E
              then (deliveryFailed, st1\<lparr>users := deleteOne (byId insertedId) us\<rparr>)
              else (reply 201 True
                      ''Registration successful. Please check your email for verification.'',
                    st1\<lparr>users := us\<rparr>)))"

text \<open>\<^verbatim>\<open>router.post('/verify-email')\<close>, auth.js 148-247.\<close>

definition otpRejected :: "otpEntry option \<Rightarrow> string \<Rightarrow> nat \<Rightarrow> bool" where
  "otpRejected storedOTP code t =
     (case storedOTP of None \<Rightarrow> True | Some e \<Rightarrow> otp e \<noteq> code \<or> t > expiry e)"

definition invalidOTP :: response where
  "invalidOTP = reply 400 False ''Invalid or expired OTP''"

definition markVerified :: "nat \<Rightarrow> user \<Rightarrow> user" where
  "markVerified t u =
     u\<lparr>isVerified := True, verifiedAt := Some t, updatedAt := t,
       verificationOTP := None, otpExpiry := None\<rparr>"

definition verify_email :: "env \<Rightarrow> string \<Rightarrow> string \<Rightarrow> state \<Rightarrow> response \<times> state" where
  "verify_email E em code st =
     (if validationErrors E \<noteq> [] then (replyErrors (validationErrors E), st)
      else case findOne (byEmail em) (users st) of
        None \<Rightarrow> (reply 404 False ''User not found'', st)
      | Some u \<Rightarrow>
          if isVerified u then (reply 400 False ''Email already verified'', st)
          else if otpRejected (otpStore st em) code (now E) then (invalidOTP, st)
          else (reply 200 True ''Email verified successfully'',
                st\<lparr>users := updateOne (byEmail em) (markVerified (now E)) (users st),
                   otpStore := (otpStore st)(em := None)\<rparr>))"

section \<open>Password reset and change (routes/auth.js)\<close>

text \<open>\<^verbatim>\<open>router.post('/forgot-password')\<close>, auth.js 387-455.\<close>

definition forgot_password :: "env \<Rightarrow> string \<Rightarrow> state \<Rightarrow> response \<times> state" where
  "forgot_password E em st =
     (if validationErrors E \<noteq> [] then (replyErrors (validationErrors E), st)
      else case findOne (byEmail em) (users st) of
        None \<Rightarrow>
          (reply 200 True
             ''If an account with this email exists, a password reset link has been sent'', st)
      | Some u \<Rightarrow>
          (let st1 = st\<lparr>passwordResetTokens := (passwordResetTokens st)(generatedToken E \<mapsto>
                       \<lparr>reset_userId = idString (uid u), reset_email = email u,
                        reset_expiry = now E + 60 * 60 * 1000\<rparr>)\<rparr>
           in if emailSuccess E
              then (reply 200 True ''Password reset link sent to your email'', st1)
              else (reply 500 False ''Failed to send password reset email'', st1)))"

text \<open>
  \<^verbatim>\<open>router.post('/reset-password')\<close>, auth.js 495-596, and \<^verbatim>\<open>router.post('/change-password')\<close>,
  auth.js 599-707. \<open>inHistory\<close> is the loop over the stored history with its early return;
  \<open>historyOf\<close> is \<^verbatim>\<open>user.passwordHistory || []\<close>. Both handlers look the user up by a string
  (\<^verbatim>\<open>resetData.userId\<close>, stored by forgot-password as \<^verbatim>\<open>user._id.toString()\<close>, and
  \<^verbatim>\<open>req.user.userId\<close>) and update the document found by its own \<^verbatim>\<open>_id\<close>. In change-password
  \<open>reqUser\<close> is the id string in \<^verbatim>\<open>req.user\<close>; without \<^verbatim>\<open>req.user\<close> the handler throws and its
  \<^verbatim>\<open>catch\<close> answers with status 500, which is what happens under the router as the server
  mounts it, with no authentication middleware in front.
\<close>

fun inHistory :: "lib \<Rightarrow> string \<Rightarrow> historyItem list \<Rightarrow> bool" where
  "inHistory L pw [] = False"
| "inHistory L pw (historyItem # rest) =
     (if comparePassword L pw (item_password historyItem) then True else inHistory L pw rest)"

definition historyOf :: "user \<Rightarrow> historyItem list" where
  "historyOf u = (case passwordHistory u of None \<Rightarrow> [] | Some h \<Rightarrow> h)"

definition newPasswordHistory :: "lib \<Rightarrow> nat \<Rightarrow> string \<Rightarrow> historyItem list \<Rightarrow> historyItem list" where
  "newPasswordHistory L t pw h =
     \<lparr>item_password = hashPassword L pw, item_createdAt = t\<rparr>
       # take (PREVIOUS_PASSWORDS_COUNT - 1) h"

definition setPassword :: "lib \<Rightarrow> nat \<Rightarrow> string \<Rightarrow> user \<Rightarrow> user" where
  "setPassword L t pw u =
     u\<lparr>password := hashPassword L pw,
       passwordHistory := Some (newPasswordHistory L t pw (historyOf u)),
       updatedAt := t\<rparr>"

definition invalidResetToken :: response where
  "invalidResetToken = reply 400 False ''Invalid or expired reset token''"

definition reusedPassword :: response where
  "reusedPassword = reply 400 False ''Password cannot be the same as your previous passwords''"

definition reset_password :: "lib \<Rightarrow> env \<Rightarrow> string \<Rightarrow> string \<Rightarrow> state \<Rightarrow> response \<times> state" where
  "reset_password L E tok pw st =
     (if validationErrors E \<noteq> [] then (replyErrors (validationErrors E), st)
      else if \<not> isValid (checkPasswordStrength pw) then (weakPassword, st)
      else case passwordResetTokens st tok of
        None \<Rightarrow> (invalidResetToken, st)
      | Some resetData \<Rightarrow>
          if now E > reset_expiry resetData then (invalidResetToken, st)
          else (case findOne (byIdString (reset_userId resetData)) (users st) of
            None \<Rightarrow> (reply 404 False ''User not found'', st)
          | Some u \<Rightarrow>
              if inHistory L pw (historyOf u) then (reusedPassword, st)
              else (reply 200 True ''Password reset successful'',
                    st\<lparr>users := updateOne (byId (uid u)) (setPassword L (now E) pw) (users st),
                       passwordResetTokens := (passwordResetTokens st)(tok := None)\<rparr>)))"

definition change_password ::
  "lib \<Rightarrow> env \<Rightarrow> string option \<Rightarrow> string \<Rightarrow> string \<Rightarrow> state \<Rightarrow> response \<times> state" where
  "change_password L E reqUser currentPassword pw st =
     (if validationErrors E \<noteq> [] then (replyErrors (validationErrors E), st)
      else case reqUser of
        None \<Rightarrow> (reply 500 False ''Password change failed'', st)
      | Some userId \<Rightarrow>
          if \<not> isValid (checkPasswordStrength pw) then (weakPassword, st)
          else (case findOne (byIdString userId) (users st) of
            None \<Rightarrow> (reply 404 False ''User not found'', st)
          | Some u \<Rightarrow>
              if \<not> comparePassword L currentPassword (password u)
              then (reply 401 False ''Current password is incorrect'', st)
              else if comparePassword L pw (password u)
              then (reply 400 False ''New password must be different from current password'', st)
              else if inHistory L pw (historyOf u) then (reusedPassword, st)
              else (reply 200 True ''Password changed successfully'',
                    st\<lparr>users := updateOne (byId (uid u)) (setPassword L (now E) pw) (users st)\<rparr>)))"

section \<open>MFA (routes/mfa.js, config/security.js)\<close>

text \<open>
  \<^verbatim>\<open>String.prototype.toUpperCase\<close> on the strings handled here (hexadecimal codes and their
  letter-case variants): the letters a to z map to A to Z, every other code unit stays.
\<close>

definition toUpperChar :: "char \<Rightarrow> char" where
  "toUpperChar c = (if isLower c then char_of (of_char c - (32::nat)) else c)"

definition toUpperCase :: "string \<Rightarrow> string" where
  "toUpperCase s = map toUpperChar s"

text \<open>\<^verbatim>\<open>verifyBackupCode\<close> and \<^verbatim>\<open>generateBackupCodes\<close> of config/security.js.\<close>

definition verifyBackupCode :: "string \<Rightarrow> string list \<Rightarrow> bool" where
  "verifyBackupCode code backupCodes = (toUpperCase code \<in> set backupCodes)"

definition BACKUP_CODES_COUNT :: nat where "BACKUP_CODES_COUNT = 10"

text \<open>The ten codes are drawn from the random generator (\<open>randomHex i\<close> is the hexadecimal
  rendering of the \<open>i\<close>-th draw of four random bytes) and upper-cased.\<close>

definition generateBackupCodes :: "(nat \<Rightarrow> string) \<Rightarrow> string list" where
  "generateBackupCodes randomHex = map (\<lambda>i. toUpperCase (randomHex i)) [0..<BACKUP_CODES_COUNT]"

text \<open>\<^verbatim>\<open>router.post('/verify-setup')\<close>, mfa.js 81-152. The update sets \<^verbatim>\<open>mfaEnabled\<close>, clears
  \<^verbatim>\<open>mfaSetupPending\<close> and unsets \<^verbatim>\<open>mfaSecret\<close>. \<open>userId\<close> is the string \<^verbatim>\<open>req.user.userId\<close>, under
  which the authentication middleware in front of the route has found the account by the same
  filter. A missing user document makes the handler throw on its first field access, which its
  \<^verbatim>\<open>catch\<close> answers with status 500.\<close>

definition enableMFA :: "nat \<Rightarrow> user \<Rightarrow> user" where
  "enableMFA t u = u\<lparr>mfaEnabled := True, mfaSetupPending := False, updatedAt := t, mfaSecret := None\<rparr>"

definition setupNotInitiated :: response where
  "setupNotInitiated = reply 400 False ''MFA setup not initiated''"

definition invalidMFAToken :: response where
  "invalidMFAToken = reply 400 False ''Invalid MFA token''"

definition verify_setup :: "lib \<Rightarrow> env \<Rightarrow> string \<Rightarrow> string \<Rightarrow> state \<Rightarrow> response \<times> state" where
  "verify_setup L E userId token st =
     (if validationErrors E \<noteq> [] then (replyErrors (validationErrors E), st)
      else case findOne (byIdString userId) (users st) of
        None \<Rightarrow> (reply 500 False ''MFA verification failed'', st)
      | Some u \<Rightarrow>
          if \<not> mfaSetupPending u then (setupNotInitiated, st)
          else (case mfaSecret u of
            None \<Rightarrow> (setupNotInitiated, st)
          | Some secret \<Rightarrow>
              if secret = [] then (setupNotInitiated, st)
              else if \<not> verifyMFAToken L (now E) token secret then (invalidMFAToken, st)
              else (reply 200 True ''MFA enabled successfully'',
                    st\<lparr>users := updateOne (byIdString userId) (enableMFA (now E)) (users st)\<rparr>)))"

text \<open>\<^verbatim>\<open>router.post('/verify-backup')\<close>, mfa.js 304-388.\<close>

definition useBackupCode :: "nat \<Rightarrow> string \<Rightarrow> user \<Rightarrow> user" where
  "useBackupCode t backupCode u =
     u\<lparr>mfaBackupCodes :=
         Some (filter (\<lambda>code. code \<noteq> toUpperCase backupCode)
                 (case mfaBackupCodes u of None \<Rightarrow> [] | Some cs \<Rightarrow> cs)),
       updatedAt := t\<rparr>"

definition invalidBackupCode :: response where
  "invalidBackupCode = reply 400 False ''Invalid backup code''"

definition backupVerified :: response where
  "backupVerified = reply 200 True ''Backup code verification successful''"

definition verify_backup :: "env \<Rightarrow> string \<Rightarrow> string \<Rightarrow> state \<Rightarrow> response \<times> state" where
  "verify_backup E em backupCode st =
     (if validationErrors E \<noteq> [] then (replyErrors (validationErrors E), st)
      else case findOne (byEmail em) (users st) of
        None \<Rightarrow> (reply 404 False ''User not found'', st)
      | Some u \<Rightarrow>
          if \<not> mfaEnabled u then (reply 400 False ''MFA backup codes not available'', st)
          else (case mfaBackupCodes u of
            None \<Rightarrow> (reply 400 False ''MFA backup codes not available'', st)
          | Some codes \<Rightarrow>
              if \<not> verifyBackupCode backupCode codes then (invalidBackupCode, st)
              else (backupVerified,
                    st\<lparr>users := updateOne (byId (uid u)) (useBackupCode (now E) backupCode)
                                  (users st)\<rparr>)))"


section \<open>Auxiliary predicates and example values\<close>

text \<open>A request passes the input validation and the bot check of the login and register routes.\<close>

definition passes :: "env \<Rightarrow> bool" where
  "passes E = (validationErrors E = [] \<and> captchaIsValid E)"


text \<open>A call of the login route for the account \<open>u\<close> of \<open>em\<close> that passes validation and the bot
  check and submits a password that does not match the stored hash.\<close>

definition wrongCall :: "lib \<Rightarrow> string \<Rightarrow> user \<Rightarrow> env \<times> string \<times> string \<Rightarrow> bool" where
  "wrongCall L em u c =
     (passes (fst c) \<and> fst (snd c) = em \<and> \<not> comparePassword L (snd (snd c)) (password u))"


text \<open>A record is lock-consistent when its lock, if any, goes with a counter of at least 5, as
  every lock written by the login handler does (\<open>login_keeps_lockConsistent\<close>).\<close>

definition lockConsistent :: "user \<Rightarrow> bool" where
  "lockConsistent u = (lockUntil u \<noteq> None \<longrightarrow> 5 \<le> orZero (loginAttempts u))"

text \<open>Example values: a stand-in for the bcrypt and TOTP primitives, the account of the
  end-to-end scenario as registration leaves it (with an ObjectId), and requests that pass
  validation at a given time. \<open>annPending\<close> and \<open>annVeteran\<close> are accounts whose \<^verbatim>\<open>_id\<close> is a
  string, the only kind that the lookups by \<^verbatim>\<open>req.user.userId\<close> and \<^verbatim>\<open>resetData.userId\<close> find.\<close>

definition exampleLib :: lib where
  "exampleLib =
     \<lparr>comparePassword = (\<lambda>pw h. h = ''bcrypt:'' @ pw),
      hashPassword = (\<lambda>pw. ''bcrypt:'' @ pw),
      verifyMFAToken = (\<lambda>t token secret. token = ''123456'')\<rparr>"

definition ann :: user where
  "ann =
     \<lparr>uid = ObjectId 1, email = ''a@x.com'', name = ''Ann'', role = ''jobseeker'', company = None,
      password = ''bcrypt:Str0ng!Pw'', isVerified = True,
      verificationOTP = None, otpExpiry = None,
      passwordHistory = Some [\<lparr>item_password = ''bcrypt:Str0ng!Pw'', item_createdAt = 1000\<rparr>],
      loginAttempts = Some 0, lockUntil = None, lastLogin = None,
      createdAt = 1000, updatedAt = 2000, verifiedAt = Some 2000,
      mfaEnabled = False, mfaSetupPending = False, mfaSecret = None, mfaBackupCodes = None\<rparr>"

definition requestAt :: "nat \<Rightarrow> env" where
  "requestAt t =
     \<lparr>now = t, validationErrors = [], captchaIsValid = True, captchaMessage = [],
      emailSuccess = True, generatedOTP = ''123456'', generatedToken = ''c0ffee''\<rparr>"

definition stateOf :: "user \<Rightarrow> state" where
  "stateOf u = \<lparr>users = [u], otpStore = Map.empty, passwordResetTokens = Map.empty\<rparr>"

definition fiveWrong :: "(env \<times> string \<times> string) list" where
  "fiveWrong = map (\<lambda>t. (requestAt t, ''a@x.com'', ''wrong'')) [3000, 4000, 5000, 6000, 7000]"

definition annLocked :: user where
  "annLocked = ann\<lparr>loginAttempts := Some 5, lockUntil := Some 907000\<rparr>"

definition annThree :: user where
  "annThree = ann\<lparr>loginAttempts := Some 3\<rparr>"

definition annUnverified :: user where
  "annUnverified = ann\<lparr>isVerified := False, verifiedAt := None\<rparr>"


definition failingDelivery :: "nat \<Rightarrow> env" where
  "failingDelivery t = (requestAt t)\<lparr>emailSuccess := False\<rparr>"

definition pendingState :: state where
  "pendingState =
     (stateOf annUnverified)\<lparr>otpStore :=
        [''a@x.com'' \<mapsto> \<lparr>otp = ''123456'', expiry = 601000, attempts = 0\<rparr>]\<rparr>"

definition annPending :: user where
  "annPending =
     ann\<lparr>uid := StringId ''ann'', mfaSetupPending := True, mfaSecret := Some ''JBSWY3DPEHPK3PXP'',
         mfaBackupCodes := Some [''1A2B3C4D'', ''DEADBEEF'']\<rparr>"

definition annMFA :: user where
  "annMFA = ann\<lparr>mfaEnabled := True, mfaBackupCodes := Some [''1A2B3C4D'', ''DEADBEEF'']\<rparr>"

text \<open>A password history is ordered most-recent first.\<close>

definition mostRecentFirst :: "historyItem list \<Rightarrow> bool" where
  "mostRecentFirst h = sorted_wrt (\<lambda>a b. item_createdAt b \<le> item_createdAt a) h"

text \<open>The effect of a password update from \<open>u\<close> to \<open>u'\<close> at time \<open>t\<close>: the new hash is stored and
  prepended to the history, of which the four most recent older entries are kept, so at most
  five entries remain, and an ordered history stays ordered.\<close>

definition historyUpdated :: "lib \<Rightarrow> nat \<Rightarrow> string \<Rightarrow> user \<Rightarrow> user \<Rightarrow> bool" where
  "historyUpdated L t pw u u' =
     (password u' = hashPassword L pw \<and>
      historyOf u' = \<lparr>item_password = hashPassword L pw, item_createdAt = t\<rparr> # take 4 (historyOf u) \<and>
      length (historyOf u') \<le> 5 \<and>
      (mostRecentFirst (historyOf u) \<and> (\<forall>x\<in>set (historyOf u). item_createdAt x \<le> t)
        \<longrightarrow> mostRecentFirst (historyOf u')))"

definition resetStateOf :: "user \<Rightarrow> state" where
  "resetStateOf u =
     (stateOf u)\<lparr>passwordResetTokens :=
        [''c0ffee'' \<mapsto> \<lparr>reset_userId = idString (uid u), reset_email = email u,
           reset_expiry = 3605000\<rparr>]\<rparr>"

definition annVeteran :: user where
  "annVeteran =
     ann\<lparr>uid := StringId ''ann'', password := ''bcrypt:Fifth!Pw5'',
         passwordHistory := Some
           [\<lparr>item_password = ''bcrypt:Fifth!Pw5'', item_createdAt = 5000\<rparr>,
            \<lparr>item_password = ''bcrypt:Fourth!Pw4'', item_createdAt = 4000\<rparr>,
            \<lparr>item_password = ''bcrypt:Third!Pw3'', item_createdAt = 3000\<rparr>,
            \<lparr>item_password = ''bcrypt:Second!Pw2'', item_createdAt = 2000\<rparr>,
            \<lparr>item_password = ''bcrypt:Str0ng!Pw'', item_createdAt = 1000\<rparr>]\<rparr>"

section \<open>Properties of the collection operations\<close>

lemmas ex_defs = exampleLib_def ann_def requestAt_def stateOf_def fiveWrong_def annLocked_def
  annUnverified_def annThree_def passes_def wrongCall_def byEmail_def isLocked_def orZero_def


lemma findOne_holds: "findOne p ds = Some d \<Longrightarrow> p d"
  by (induction ds) (auto split: if_splits)

lemma findOne_updateOne:
  "(\<And>d. p d \<Longrightarrow> p (f d)) \<Longrightarrow> findOne p (updateOne p f ds) = map_option f (findOne p ds)"
  by (induction ds) auto

lemma findOne_updateOne_other:
  "(\<And>d. p (f d) = p d) \<Longrightarrow> (\<And>d. q d \<Longrightarrow> \<not> p d) \<Longrightarrow>
     findOne p (updateOne q f ds) = findOne p ds"
  by (induction ds) auto

lemma byEmail_recordFailure [simp]: "byEmail e (recordFailure t u) = byEmail e u"
  by (simp add: byEmail_def recordFailure_def Let_def)

lemma byEmail_recordSuccess [simp]: "byEmail e (recordSuccess t u) = byEmail e u"
  by (simp add: byEmail_def recordSuccess_def)

lemma login_locked:
  assumes "passes E" "findOne (byEmail em) (users st) = Some u" "isLocked u (now E)"
  shows "login L E em pw st = (accountLocked, st)"
  using assms by (simp add: login_def passes_def)

lemma login_wrong:
  assumes "passes E" "findOne (byEmail em) (users st) = Some u" "\<not> isLocked u (now E)"
    "isVerified u" "\<not> comparePassword L pw (password u)"
  shows "login L E em pw st =
    (invalidCredentials, st\<lparr>users := updateOne (byEmail em) (recordFailure (now E)) (users st)\<rparr>)"
    and "findOne (byEmail em) (users (snd (login L E em pw st))) = Some (recordFailure (now E) u)"
  using assms by (simp_all add: login_def passes_def findOne_updateOne)

lemma login_right:
  assumes "passes E" "findOne (byEmail em) (users st) = Some u" "\<not> isLocked u (now E)"
    "isVerified u" "comparePassword L pw (password u)"
  shows "login L E em pw st =
    (loginSuccessful, st\<lparr>users := updateOne (byEmail em) (recordSuccess (now E)) (users st)\<rparr>)"
    and "findOne (byEmail em) (users (snd (login L E em pw st))) = Some (recordSuccess (now E) u)"
  using assms by (simp_all add: login_def passes_def findOne_updateOne)

lemma recordFailure_fields [simp]:
  "isVerified (recordFailure t u) = isVerified u"
  "password (recordFailure t u) = password u"
  "loginAttempts (recordFailure t u) = Some (Suc (orZero (loginAttempts u)))"
  "lockUntil (recordFailure t u) =
     (if 4 \<le> orZero (loginAttempts u) then Some (t + LOCK_WINDOW) else None)"
  by (auto simp add: recordFailure_def Let_def)

lemma recordSuccess_fields [simp]:
  "isVerified (recordSuccess t u) = isVerified u"
  "password (recordSuccess t u) = password u"
  "loginAttempts (recordSuccess t u) = Some 0"
  "lockUntil (recordSuccess t u) = None"
  by (simp_all add: recordSuccess_def)

lemma orZero_Some [simp]: "orZero (Some n) = n"
  by (simp add: orZero_def)

lemma isLocked_None: "lockUntil u = None \<Longrightarrow> \<not> isLocked u t"
  by (simp add: isLocked_def)


section \<open>Properties of login\<close>

lemma wrong_calls:
  assumes "findOne (byEmail em) (users st) = Some u" "isVerified u"
    and "\<forall>c\<in>set cs. wrongCall L em u c"
    and "orZero (loginAttempts u) + length cs < 5"
    and "cs \<noteq> [] \<longrightarrow> \<not> isLocked u (now (fst (hd cs)))"
  shows "fst (loginAll L cs st) = replicate (length cs) invalidCredentials \<and>
         (\<exists>u'. findOne (byEmail em) (users (snd (loginAll L cs st))) = Some u' \<and>
               isVerified u' \<and> password u' = password u \<and>
               orZero (loginAttempts u') = orZero (loginAttempts u) + length cs \<and>
               (cs \<noteq> [] \<longrightarrow> lockUntil u' = None) \<and> (cs = [] \<longrightarrow> u' = u))"
  using assms
proof (induction cs arbitrary: st u)
  case Nil
  then show ?case by simp
next
  case (Cons c cs)
  obtain E em' pw where c: "c = (E, em', pw)" by (cases c) auto
  from Cons.prems(3) c have w: "passes E" "em' = em" "\<not> comparePassword L pw (password u)"
    by (auto simp: wrongCall_def)
  from Cons.prems(5) c have nl: "\<not> isLocked u (now E)" by simp
  let ?st1 = "snd (login L E em pw st)"
  let ?u1 = "recordFailure (now E) u"
  have r: "fst (login L E em pw st) = invalidCredentials"
    using login_wrong(1)[OF w(1) Cons.prems(1) nl Cons.prems(2) w(3)] by simp
  have f1: "findOne (byEmail em) (users ?st1) = Some ?u1"
    using login_wrong(2)[OF w(1) Cons.prems(1) nl Cons.prems(2) w(3)] .
  have lk: "lockUntil ?u1 = None" using Cons.prems(4) by simp
  have ih: "fst (loginAll L cs ?st1) = replicate (length cs) invalidCredentials \<and>
         (\<exists>u'. findOne (byEmail em) (users (snd (loginAll L cs ?st1))) = Some u' \<and>
               isVerified u' \<and> password u' = password ?u1 \<and>
               orZero (loginAttempts u') = orZero (loginAttempts ?u1) + length cs \<and>
               (cs \<noteq> [] \<longrightarrow> lockUntil u' = None) \<and> (cs = [] \<longrightarrow> u' = ?u1))"
  proof (rule Cons.IH[OF f1])
    show "isVerified ?u1" using Cons.prems(2) by simp
    show "\<forall>c\<in>set cs. wrongCall L em ?u1 c" using Cons.prems(3) by (simp add: wrongCall_def)
    show "orZero (loginAttempts ?u1) + length cs < 5" using Cons.prems(4) by simp
    show "cs \<noteq> [] \<longrightarrow> \<not> isLocked ?u1 (now (fst (hd cs)))" using lk by (simp add: isLocked_None)
  qed
  then obtain u' where u': "findOne (byEmail em) (users (snd (loginAll L cs ?st1))) = Some u'"
    "isVerified u'" "password u' = password ?u1"
    "orZero (loginAttempts u') = orZero (loginAttempts ?u1) + length cs"
    "cs \<noteq> [] \<longrightarrow> lockUntil u' = None" "cs = [] \<longrightarrow> u' = ?u1" by blast
  have la: "loginAll L (c # cs) st =
      (fst (login L E em pw st) # fst (loginAll L cs ?st1), snd (loginAll L cs ?st1))"
    by (simp add: c w(2) split: prod.splits)
  show ?case
    apply (simp only: la fst_conv snd_conv)
    using r ih u' lk by auto
qed


lemma loginAll_snoc:
  "loginAll L (cs @ [(E, em, pw)]) st =
     (fst (loginAll L cs st) @ [fst (login L E em pw (snd (loginAll L cs st)))],
      snd (login L E em pw (snd (loginAll L cs st))))"
  by (induction cs arbitrary: st) (auto split: prod.splits)

lemma five_wrong_calls:
  assumes found: "findOne (byEmail em) (users st) = Some u" and ver: "isVerified u"
    and zero: "orZero (loginAttempts u) = 0"
    and len: "length cs = 5"
    and wrong: "\<forall>c\<in>set cs. wrongCall L em u c"
    and unlocked: "\<not> isLocked u (now (fst (hd cs)))"
  shows "fst (loginAll L cs st) = replicate 5 invalidCredentials"
    and "\<exists>u'. findOne (byEmail em) (users (snd (loginAll L cs st))) = Some u' \<and>
           isVerified u' \<and> password u' = password u \<and> loginAttempts u' = Some 5 \<and>
           lockUntil u' = Some (now (fst (last cs)) + LOCK_WINDOW)"
proof -
  from len have ne: "cs \<noteq> []" by auto
  define bs where "bs = butlast cs"
  obtain E em' pw where l: "last cs = (E, em', pw)" by (cases "last cs") auto
  have cs: "cs = bs @ [(E, em', pw)]" using ne l by (simp add: bs_def flip: l)
  have lb: "length bs = 4" using len by (simp add: bs_def)
  have w5: "passes E" "em' = em" "\<not> comparePassword L pw (password u)"
    using wrong cs by (auto simp: wrongCall_def)
  have hdbs: "hd bs = hd cs" using lb cs by (cases bs) auto
  have "fst (loginAll L bs st) = replicate (length bs) invalidCredentials \<and>
         (\<exists>u'. findOne (byEmail em) (users (snd (loginAll L bs st))) = Some u' \<and>
               isVerified u' \<and> password u' = password u \<and>
               orZero (loginAttempts u') = orZero (loginAttempts u) + length bs \<and>
               (bs \<noteq> [] \<longrightarrow> lockUntil u' = None) \<and> (bs = [] \<longrightarrow> u' = u))"
  proof (rule wrong_calls[OF found ver])
    show "\<forall>c\<in>set bs. wrongCall L em u c" using wrong cs by auto
    show "orZero (loginAttempts u) + length bs < 5" using zero lb by simp
    show "bs \<noteq> [] \<longrightarrow> \<not> isLocked u (now (fst (hd bs)))" using unlocked hdbs by simp
  qed
  then obtain u4 where r4: "fst (loginAll L bs st) = replicate 4 invalidCredentials"
    and u4: "findOne (byEmail em) (users (snd (loginAll L bs st))) = Some u4"
      "isVerified u4" "password u4 = password u" "orZero (loginAttempts u4) = 4"
      "lockUntil u4 = None"
    using lb zero by auto
  let ?st4 = "snd (loginAll L bs st)"
  have nl: "\<not> isLocked u4 (now E)" using u4(5) by (rule isLocked_None)
  have w: "\<not> comparePassword L pw (password u4)" using w5(3) u4(3) by simp
  have r5: "fst (login L E em pw ?st4) = invalidCredentials"
    using login_wrong(1)[OF w5(1) u4(1) nl u4(2) w] by simp
  have u5: "findOne (byEmail em) (users (snd (login L E em pw ?st4))) = Some (recordFailure (now E) u4)"
    using login_wrong(2)[OF w5(1) u4(1) nl u4(2) w] .
  have all: "loginAll L cs st =
      (fst (loginAll L bs st) @ [fst (login L E em pw ?st4)], snd (login L E em pw ?st4))"
    unfolding cs w5(2) by (rule loginAll_snoc)
  show "fst (loginAll L cs st) = replicate 5 invalidCredentials"
    unfolding all using r4 r5 by (simp add: numeral_eq_Suc replicate_append_same)
  show "\<exists>u'. findOne (byEmail em) (users (snd (loginAll L cs st))) = Some u' \<and>
           isVerified u' \<and> password u' = password u \<and> loginAttempts u' = Some 5 \<and>
           lockUntil u' = Some (now (fst (last cs)) + LOCK_WINDOW)"
    unfolding all l using u5 u4 by simp
qed

lemma isLocked_window: "lockUntil u = Some (t + LOCK_WINDOW) \<Longrightarrow> isLocked u t' = (t' < t + LOCK_WINDOW)"
  by (auto simp add: isLocked_def LOCK_WINDOW_def)



lemma wrongCall_password:
  "password u' = password u \<Longrightarrow> wrongCall L em u' c = wrongCall L em u c"
  by (simp add: wrongCall_def)

lemma isLocked_lockUntil: "isLocked u t \<Longrightarrow> lockUntil u \<noteq> None"
  by (auto simp add: isLocked_def split: option.splits)

lemma wrong_call_step:
  assumes found: "findOne (byEmail em) (users st) = Some u" and ver: "isVerified u"
    and con: "lockConsistent u" and w: "wrongCall L em u (E, em, pw)"
  shows "\<exists>u'. findOne (byEmail em) (users (snd (login L E em pw st))) = Some u' \<and>
           isVerified u' \<and> password u' = password u \<and> lockConsistent u' \<and>
           min 5 (orZero (loginAttempts u) + 1) \<le> orZero (loginAttempts u') \<and>
           (5 \<le> orZero (loginAttempts u') \<longrightarrow> isLocked u' (now E)) \<and>
           (fst (login L E em pw st) = invalidCredentials \<or>
            fst (login L E em pw st) = accountLocked)"
proof (cases "isLocked u (now E)")
  case True
  from w have p: "passes E" by (simp add: wrongCall_def)
  have l: "login L E em pw st = (accountLocked, st)" using login_locked[OF p found True] .
  from True con have "5 \<le> orZero (loginAttempts u)"
    using isLocked_lockUntil[OF True] by (simp add: lockConsistent_def)
  with l found ver con True show ?thesis by simp
next
  case False
  from w have p: "passes E" "\<not> comparePassword L pw (password u)" by (simp_all add: wrongCall_def)
  let ?u' = "recordFailure (now E) u"
  have r: "fst (login L E em pw st) = invalidCredentials"
    using login_wrong(1)[OF p(1) found False ver p(2)] by simp
  have f: "findOne (byEmail em) (users (snd (login L E em pw st))) = Some ?u'"
    using login_wrong(2)[OF p(1) found False ver p(2)] .
  have c: "lockConsistent ?u'" by (simp add: lockConsistent_def)
  have k: "5 \<le> orZero (loginAttempts ?u') \<longrightarrow> isLocked ?u' (now E)"
    by (simp add: isLocked_def LOCK_WINDOW_def)
  from r f c k ver show ?thesis by simp
qed

lemma wrong_calls_general:
  assumes "findOne (byEmail em) (users st) = Some u" "isVerified u" "lockConsistent u"
    and "\<forall>c\<in>set cs. wrongCall L em u c" and "cs \<noteq> []"
  shows "\<exists>u'. findOne (byEmail em) (users (snd (loginAll L cs st))) = Some u' \<and>
           isVerified u' \<and> password u' = password u \<and> lockConsistent u' \<and>
           min 5 (orZero (loginAttempts u) + length cs) \<le> orZero (loginAttempts u') \<and>
           (5 \<le> orZero (loginAttempts u') \<longrightarrow> isLocked u' (now (fst (last cs)))) \<and>
           (\<forall>r\<in>set (fst (loginAll L cs st)). r = invalidCredentials \<or> r = accountLocked)"
  using assms
proof (induction cs arbitrary: st u)
  case Nil
  then show ?case by simp
next
  case (Cons c cs)
  obtain E em' pw where c: "c = (E, em', pw)" by (cases c) auto
  from Cons.prems(4) c have e: "em' = em" by (simp add: wrongCall_def)
  from Cons.prems(4) c e have w: "wrongCall L em u (E, em, pw)" by simp
  let ?st1 = "snd (login L E em pw st)"
  from wrong_call_step[OF Cons.prems(1,2,3) w] obtain u1 where
    u1: "findOne (byEmail em) (users ?st1) = Some u1" "isVerified u1" "password u1 = password u"
      "lockConsistent u1" "min 5 (orZero (loginAttempts u) + 1) \<le> orZero (loginAttempts u1)"
      "5 \<le> orZero (loginAttempts u1) \<longrightarrow> isLocked u1 (now E)"
      "fst (login L E em pw st) = invalidCredentials \<or> fst (login L E em pw st) = accountLocked"
    by blast
  have la: "loginAll L (c # cs) st =
      (fst (login L E em pw st) # fst (loginAll L cs ?st1), snd (loginAll L cs ?st1))"
    by (simp add: c e split: prod.splits)
  show ?case
  proof (cases "cs = []")
    case True
    with u1 show ?thesis unfolding la by (simp add: c)
  next
    case False
    have ws: "\<forall>c\<in>set cs. wrongCall L em u1 c"
      using Cons.prems(4) wrongCall_password[OF u1(3)] by simp
    from Cons.IH[OF u1(1,2,4) ws False] obtain u' where
      u': "findOne (byEmail em) (users (snd (loginAll L cs ?st1))) = Some u'" "isVerified u'"
        "password u' = password u1" "lockConsistent u'"
        "min 5 (orZero (loginAttempts u1) + length cs) \<le> orZero (loginAttempts u')"
        "5 \<le> orZero (loginAttempts u') \<longrightarrow> isLocked u' (now (fst (last cs)))"
        "\<forall>r\<in>set (fst (loginAll L cs ?st1)). r = invalidCredentials \<or> r = accountLocked"
      by blast
    from u1(5) u'(5) have m: "min 5 (orZero (loginAttempts u) + length (c # cs))
        \<le> orZero (loginAttempts u')" by simp
    from u' u1(3,7) m False show ?thesis unfolding la by simp
  qed
qed

lemma five_calls_lock:
  assumes "findOne (byEmail em) (users st) = Some u" "isVerified u" "lockConsistent u"
    and "\<forall>c\<in>set cs. wrongCall L em u c" and "length cs = 5"
  shows "\<exists>u'. findOne (byEmail em) (users (snd (loginAll L cs st))) = Some u' \<and>
           isLocked u' (now (fst (last cs)))"
    and "\<forall>r\<in>set (fst (loginAll L cs st)). r = invalidCredentials \<or> r = accountLocked"
proof -
  from assms(5) have ne: "cs \<noteq> []" by auto
  from wrong_calls_general[OF assms(1-4) ne] obtain u' where
    u': "findOne (byEmail em) (users (snd (loginAll L cs st))) = Some u'"
      "min 5 (orZero (loginAttempts u) + length cs) \<le> orZero (loginAttempts u')"
      "5 \<le> orZero (loginAttempts u') \<longrightarrow> isLocked u' (now (fst (last cs)))"
      "\<forall>r\<in>set (fst (loginAll L cs st)). r = invalidCredentials \<or> r = accountLocked"
    by blast
  from u'(2) assms(5) have "5 \<le> orZero (loginAttempts u')" by simp
  with u'(1,3) show "\<exists>u'. findOne (byEmail em) (users (snd (loginAll L cs st))) = Some u' \<and>
           isLocked u' (now (fst (last cs)))" by blast
  from u'(4) show "\<forall>r\<in>set (fst (loginAll L cs st)). r = invalidCredentials \<or> r = accountLocked" .
qed

text \<open>
  C1 (as amended). For every verified user, five consecutive wrong-password login calls set a
  lockout: each of the five is answered with a failure, and after them \<open>lockUntil\<close> lies in the
  future of the fifth call (the record being lock-consistent before them); when no failure was
  outstanding and no lock in force before them, the counter is then 5 and \<open>lockUntil\<close> is the
  time of the fifth call plus 15 minutes. For every user: a login call made while \<open>lockUntil\<close>
  is in the future is answered with the account-locked error and changes nothing, whatever
  password is submitted. For every verified user: a login with the correct password made when
  the account is not locked (in particular once \<open>lockUntil\<close> has passed) succeeds, sets the
  counter to zero and clears \<open>lockUntil\<close>.
\<close>

theorem login_lockout:
  "(findOne (byEmail em) (users st) = Some u \<and> isVerified u \<and> lockConsistent u \<and>
      length cs = 5 \<and> (\<forall>c\<in>set cs. wrongCall L em u c)
    \<longrightarrow> (\<forall>r\<in>set (fst (loginAll L cs st)). r = invalidCredentials \<or> r = accountLocked) \<and>
        (\<exists>u'. findOne (byEmail em) (users (snd (loginAll L cs st))) = Some u' \<and>
           isLocked u' (now (fst (last cs)))))
   \<and> (findOne (byEmail emF) (users stF) = Some uF \<and> isVerified uF \<and>
      orZero (loginAttempts uF) = 0 \<and> length csF = 5 \<and> (\<forall>c\<in>set csF. wrongCall L emF uF c) \<and>
      \<not> isLocked uF (now (fst (hd csF)))
    \<longrightarrow> (\<exists>u'. findOne (byEmail emF) (users (snd (loginAll L csF stF))) = Some u' \<and>
           loginAttempts u' = Some 5 \<and>
           lockUntil u' = Some (now (fst (last csF)) + LOCK_WINDOW)))
   \<and> (findOne (byEmail emL) (users stL) = Some uL \<and> passes EL \<and> isLocked uL (now EL)
    \<longrightarrow> login L EL emL pwL stL = (accountLocked, stL))
   \<and> (findOne (byEmail emR) (users stR) = Some uR \<and> isVerified uR \<and> passes ER \<and>
      \<not> isLocked uR (now ER) \<and> comparePassword L pwR (password uR)
    \<longrightarrow> fst (login L ER emR pwR stR) = loginSuccessful \<and>
        (\<exists>u'. findOne (byEmail emR) (users (snd (login L ER emR pwR stR))) = Some u' \<and>
           loginAttempts u' = Some 0 \<and> lockUntil u' = None))"
proof (intro conjI impI)
  assume a: "findOne (byEmail em) (users st) = Some u \<and> isVerified u \<and> lockConsistent u \<and>
      length cs = 5 \<and> (\<forall>c\<in>set cs. wrongCall L em u c)"
  then show "\<forall>r\<in>set (fst (loginAll L cs st)). r = invalidCredentials \<or> r = accountLocked"
    using five_calls_lock(2)[of em st u cs L] by blast
  from a show "\<exists>u'. findOne (byEmail em) (users (snd (loginAll L cs st))) = Some u' \<and>
           isLocked u' (now (fst (last cs)))"
    using five_calls_lock(1)[of em st u cs L] by blast
next
  assume "findOne (byEmail emF) (users stF) = Some uF \<and> isVerified uF \<and>
      orZero (loginAttempts uF) = 0 \<and> length csF = 5 \<and> (\<forall>c\<in>set csF. wrongCall L emF uF c) \<and>
      \<not> isLocked uF (now (fst (hd csF)))"
  then show "\<exists>u'. findOne (byEmail emF) (users (snd (loginAll L csF stF))) = Some u' \<and>
           loginAttempts u' = Some 5 \<and>
           lockUntil u' = Some (now (fst (last csF)) + LOCK_WINDOW)"
    using five_wrong_calls(2)[of emF stF uF csF L] by blast
next
  assume "findOne (byEmail emL) (users stL) = Some uL \<and> passes EL \<and> isLocked uL (now EL)"
  then show "login L EL emL pwL stL = (accountLocked, stL)"
    using login_locked by blast
next
  assume a: "findOne (byEmail emR) (users stR) = Some uR \<and> isVerified uR \<and> passes ER \<and>
      \<not> isLocked uR (now ER) \<and> comparePassword L pwR (password uR)"
  then show "fst (login L ER emR pwR stR) = loginSuccessful"
    using login_right(1)[of ER emR stR uR L pwR] by simp
  from a show "\<exists>u'. findOne (byEmail emR) (users (snd (login L ER emR pwR stR))) = Some u' \<and>
           loginAttempts u' = Some 0 \<and> lockUntil u' = None"
    using login_right(2)[of ER emR stR uR L pwR] by (simp add: recordSuccess_def)
qed

theorem login_lockout_witness:
  "(\<exists>u'. findOne (byEmail ''a@x.com'')
        (users (snd (loginAll exampleLib fiveWrong (stateOf annThree)))) = Some u' \<and>
      isLocked u' 7000)
   \<and> map_option lockUntil
      (findOne (byEmail ''a@x.com'') (users (snd (loginAll exampleLib fiveWrong (stateOf ann)))))
     = Some (Some (7000 + LOCK_WINDOW))
   \<and> login exampleLib (requestAt 8000) ''a@x.com'' ''Str0ng!Pw'' (stateOf annLocked)
     = (accountLocked, stateOf annLocked)
   \<and> fst (login exampleLib (requestAt 907000) ''a@x.com'' ''Str0ng!Pw'' (stateOf annLocked))
     = loginSuccessful
   \<and> map_option loginAttempts (findOne (byEmail ''a@x.com'')
        (users (snd (login exampleLib (requestAt 907000) ''a@x.com'' ''Str0ng!Pw''
           (stateOf annLocked))))) = Some (Some 0)"
proof -
  have h0: "findOne (byEmail ''a@x.com'') (users (stateOf annThree)) = Some annThree \<and>
      isVerified annThree \<and> lockConsistent annThree \<and> length fiveWrong = 5 \<and>
      (\<forall>c\<in>set fiveWrong. wrongCall exampleLib ''a@x.com'' annThree c)"
    by (simp add: ex_defs lockConsistent_def)
  have h1: "findOne (byEmail ''a@x.com'') (users (stateOf ann)) = Some ann \<and> isVerified ann \<and>
      orZero (loginAttempts ann) = 0 \<and> length fiveWrong = 5 \<and>
      (\<forall>c\<in>set fiveWrong. wrongCall exampleLib ''a@x.com'' ann c) \<and>
      \<not> isLocked ann (now (fst (hd fiveWrong)))"
    by (simp add: ex_defs)
  have l: "now (fst (last fiveWrong)) = 7000" by (simp add: ex_defs)
  have h2: "findOne (byEmail ''a@x.com'') (users (stateOf annLocked)) = Some annLocked \<and>
      passes (requestAt 8000) \<and> isLocked annLocked (now (requestAt 8000))"
    by (simp add: ex_defs)
  have h3: "findOne (byEmail ''a@x.com'') (users (stateOf annLocked)) = Some annLocked \<and>
      isVerified annLocked \<and> passes (requestAt 907000) \<and>
      \<not> isLocked annLocked (now (requestAt 907000)) \<and>
      comparePassword exampleLib ''Str0ng!Pw'' (password annLocked)"
    by (simp add: ex_defs)
  note t = login_lockout[where em = "''a@x.com''" and st = "stateOf annThree" and u = annThree
        and cs = fiveWrong and L = exampleLib
        and emF = "''a@x.com''" and stF = "stateOf ann" and uF = ann and csF = fiveWrong
        and emL = "''a@x.com''" and stL = "stateOf annLocked" and uL = annLocked
        and EL = "requestAt 8000" and pwL = "''Str0ng!Pw''"
        and emR = "''a@x.com''" and stR = "stateOf annLocked" and uR = annLocked
        and ER = "requestAt 907000" and pwR = "''Str0ng!Pw''"]
  from t h0 have g: "\<exists>u'. findOne (byEmail ''a@x.com'')
        (users (snd (loginAll exampleLib fiveWrong (stateOf annThree)))) = Some u' \<and>
      isLocked u' (now (fst (last fiveWrong)))"
    by blast
  from t h1 have f: "\<exists>u'. findOne (byEmail ''a@x.com'')
        (users (snd (loginAll exampleLib fiveWrong (stateOf ann)))) = Some u' \<and>
      loginAttempts u' = Some 5 \<and>
      lockUntil u' = Some (now (fst (last fiveWrong)) + LOCK_WINDOW)"
    by blast
  from t h2 have k: "login exampleLib (requestAt 8000) ''a@x.com'' ''Str0ng!Pw''
      (stateOf annLocked) = (accountLocked, stateOf annLocked)"
    by blast
  from t h3 have r: "fst (login exampleLib (requestAt 907000) ''a@x.com'' ''Str0ng!Pw''
        (stateOf annLocked)) = loginSuccessful \<and>
      (\<exists>u'. findOne (byEmail ''a@x.com'')
         (users (snd (login exampleLib (requestAt 907000) ''a@x.com'' ''Str0ng!Pw''
           (stateOf annLocked)))) = Some u' \<and> loginAttempts u' = Some 0 \<and> lockUntil u' = None)"
    by blast
  from g f k r show ?thesis unfolding l by auto
qed

text \<open>
  The claim as stated quantifies over every user. An account that has not verified its e-mail
  is turned away by the verification gate before the password is compared: five failed login
  calls leave it without a lock.
\<close>

theorem login_lockout_counterexample:
  "findOne (byEmail ''a@x.com'') (users (stateOf annUnverified)) = Some annUnverified
   \<and> lockUntil annUnverified = None
   \<and> loginAll exampleLib fiveWrong (stateOf annUnverified)
     = (replicate 5 notVerified, stateOf annUnverified)
   \<and> success notVerified = False"
  by (simp add: ex_defs login_def numeral_eq_Suc notVerified_def reply_def)


lemma replies_distinct [simp]:
  "invalidCredentials \<noteq> accountLocked" "invalidCredentials \<noteq> loginSuccessful"
  "accountLocked \<noteq> loginSuccessful" "notVerified \<noteq> loginSuccessful"
  "replyErrors errs \<noteq> loginSuccessful" "reply 400 False msg \<noteq> loginSuccessful"
  by (simp_all add: invalidCredentials_def accountLocked_def loginSuccessful_def notVerified_def
      reply_def replyErrors_def)


lemma accountLocked_only_when_locked:
  assumes "fst (login L E em pw st) = accountLocked"
  shows "snd (login L E em pw st) = st"
    and "\<exists>u. findOne (byEmail em) (users st) = Some u \<and> isLocked u (now E)"
  using assms
  by (auto simp add: login_def accountLocked_def invalidCredentials_def notVerified_def
      loginSuccessful_def reply_def replyErrors_def split: if_splits option.splits)


text \<open>
  C7 (as amended). In a sequence of wrong-password login calls against a verified, unlocked
  account with no failures outstanding, each of the first five calls, the fifth included, is
  answered with the generic invalid-credentials error (status 401); the fifth only sets the lock
  as a side effect. The account-locked error (status 423) is the answer to any later call made
  before the lock expires: the handler gives it only to a call that finds a lock already in
  force, and such a call changes nothing.
\<close>

theorem fifth_failure_response:
  "(findOne (byEmail em) (users st) = Some u \<and> isVerified u \<and> orZero (loginAttempts u) = 0 \<and>
     length cs = 5 \<and> (\<forall>c\<in>set cs. wrongCall L em u c) \<and> \<not> isLocked u (now (fst (hd cs)))
   \<longrightarrow> fst (loginAll L cs st) = replicate 5 invalidCredentials \<and>
       last (fst (loginAll L cs st)) \<noteq> accountLocked \<and>
       (passes E \<and> now E < now (fst (last cs)) + LOCK_WINDOW
        \<longrightarrow> login L E em pw (snd (loginAll L cs st)) = (accountLocked, snd (loginAll L cs st))))
   \<and> (fst (login L EK emK pwK stK) = accountLocked
   \<longrightarrow> snd (login L EK emK pwK stK) = stK \<and>
       (\<exists>u. findOne (byEmail emK) (users stK) = Some u \<and> isLocked u (now EK)))"
proof (intro conjI impI)
  assume a: "findOne (byEmail em) (users st) = Some u \<and> isVerified u \<and> orZero (loginAttempts u) = 0 \<and>
     length cs = 5 \<and> (\<forall>c\<in>set cs. wrongCall L em u c) \<and> \<not> isLocked u (now (fst (hd cs)))"
  then show r: "fst (loginAll L cs st) = replicate 5 invalidCredentials"
    using five_wrong_calls(1)[of em st u cs L] by blast
  show "last (fst (loginAll L cs st)) \<noteq> accountLocked"
    unfolding r by (simp add: numeral_eq_Suc)
next
  assume a: "findOne (byEmail em) (users st) = Some u \<and> isVerified u \<and> orZero (loginAttempts u) = 0 \<and>
     length cs = 5 \<and> (\<forall>c\<in>set cs. wrongCall L em u c) \<and> \<not> isLocked u (now (fst (hd cs)))"
    and b: "passes E \<and> now E < now (fst (last cs)) + LOCK_WINDOW"
  from a obtain u' where u': "findOne (byEmail em) (users (snd (loginAll L cs st))) = Some u'"
    "lockUntil u' = Some (now (fst (last cs)) + LOCK_WINDOW)"
    using five_wrong_calls(2)[of em st u cs L] by blast
  from b show "login L E em pw (snd (loginAll L cs st)) = (accountLocked, snd (loginAll L cs st))"
    using login_locked[OF _ u'(1), of E L pw] isLocked_window[OF u'(2), of "now E"] by blast
next
  assume "fst (login L EK emK pwK stK) = accountLocked"
  then show "snd (login L EK emK pwK stK) = stK"
    "\<exists>u. findOne (byEmail emK) (users stK) = Some u \<and> isLocked u (now EK)"
    by (rule accountLocked_only_when_locked)+
qed


theorem fifth_failure_response_witness:
  "fst (loginAll exampleLib fiveWrong (stateOf ann)) = replicate 5 invalidCredentials
   \<and> fst (login exampleLib (requestAt 8000) ''a@x.com'' ''wrong''
        (snd (loginAll exampleLib fiveWrong (stateOf ann)))) = accountLocked
   \<and> snd (login exampleLib (requestAt 8000) ''a@x.com'' ''wrong'' (stateOf annLocked))
     = stateOf annLocked"
proof -
  have h1: "findOne (byEmail ''a@x.com'') (users (stateOf ann)) = Some ann \<and> isVerified ann \<and>
      orZero (loginAttempts ann) = 0 \<and> length fiveWrong = 5 \<and>
      (\<forall>c\<in>set fiveWrong. wrongCall exampleLib ''a@x.com'' ann c) \<and>
      \<not> isLocked ann (now (fst (hd fiveWrong)))"
    by (simp add: ex_defs)
  have h2: "passes (requestAt 8000) \<and>
      now (requestAt 8000) < now (fst (last fiveWrong)) + LOCK_WINDOW"
    by (simp add: ex_defs LOCK_WINDOW_def)
  have h3: "fst (login exampleLib (requestAt 8000) ''a@x.com'' ''wrong'' (stateOf annLocked))
      = accountLocked"
    by (simp add: ex_defs login_def)
  note t = fifth_failure_response[where em = "''a@x.com''" and st = "stateOf ann" and u = ann
        and cs = fiveWrong and L = exampleLib and E = "requestAt 8000" and pw = "''wrong''"
        and EK = "requestAt 8000" and emK = "''a@x.com''" and pwK = "''wrong''"
        and stK = "stateOf annLocked"]
  from t h1 h2 have a: "fst (loginAll exampleLib fiveWrong (stateOf ann))
      = replicate 5 invalidCredentials \<and>
    login exampleLib (requestAt 8000) ''a@x.com'' ''wrong''
        (snd (loginAll exampleLib fiveWrong (stateOf ann)))
      = (accountLocked, snd (loginAll exampleLib fiveWrong (stateOf ann)))"
    by blast
  from t h3 have b: "snd (login exampleLib (requestAt 8000) ''a@x.com'' ''wrong''
      (stateOf annLocked)) = stateOf annLocked"
    by blast
  from a b show ?thesis by simp
qed

text \<open>
  The claim as stated has the fifth failed attempt itself return the account-locked error; the
  handler returns the invalid-credentials error on all five.
\<close>

theorem fifth_failure_response_counterexample:
  "isVerified ann \<and> \<not> isLocked ann 3000
   \<and> fst (loginAll exampleLib fiveWrong (stateOf ann))
     = [invalidCredentials, invalidCredentials, invalidCredentials, invalidCredentials,
        invalidCredentials]
   \<and> invalidCredentials \<noteq> accountLocked"
  by (simp add: ex_defs login_def recordFailure_def Let_def)

lemma login_other_account:
  assumes "findOne (byEmail em) (users st) = Some u" "em' \<noteq> em"
  shows "findOne (byEmail em) (users (snd (login L E em' pw st))) = Some u"
proof -
  have d: "\<And>d. byEmail em' d \<Longrightarrow> \<not> byEmail em d"
    using assms(2) by (auto simp: byEmail_def)
  show ?thesis
    using assms(1)
    by (simp add: login_def findOne_updateOne_other[where p = "byEmail em" and q = "byEmail em'", OF _ d]
        split: option.splits)
qed

lemma login_same_account:
  assumes "findOne (byEmail em) (users st) = Some u"
  shows "\<exists>u'. findOne (byEmail em) (users (snd (login L E em pw st))) = Some u' \<and>
     ((fst (login L E em pw st) = loginSuccessful \<and> loginAttempts u' = Some 0) \<or>
      (fst (login L E em pw st) \<noteq> loginSuccessful \<and>
         orZero (loginAttempts u) \<le> orZero (loginAttempts u')))"
  using assms by (simp add: login_def findOne_updateOne)


lemma login_unverified_untouched:
  assumes "findOne (byEmail em) (users st) = Some u" "\<not> isVerified u"
  shows "findOne (byEmail em) (users (snd (login L E em' pw st))) = Some u"
proof (cases "em' = em")
  case True
  with assms show ?thesis by (simp add: login_def)
next
  case False
  with assms(1) show ?thesis by (rule login_other_account)
qed

lemma login_keeps_lockConsistent:
  assumes "findOne (byEmail em) (users st) = Some u" "lockConsistent u"
  shows "\<exists>u'. findOne (byEmail em) (users (snd (login L E em' pw st))) = Some u' \<and> lockConsistent u'"
proof (cases "em' = em")
  case True
  with assms show ?thesis
    by (auto simp add: login_def findOne_updateOne lockConsistent_def)
next
  case False
  with assms show ?thesis using login_other_account[of em st u em' L E pw] by simp
qed

lemma invalidCredentials_on_account:
  assumes "findOne (byEmail em) (users st) = Some u"
    and "fst (login L E em pw st) = invalidCredentials"
  shows "isVerified u \<and> \<not> isLocked u (now E) \<and> \<not> comparePassword L pw (password u)"
    and "findOne (byEmail em) (users (snd (login L E em pw st))) = Some (recordFailure (now E) u)"
  using assms
  by (auto simp add: login_def findOne_updateOne accountLocked_def invalidCredentials_def
      notVerified_def loginSuccessful_def reply_def replyErrors_def split: if_splits)


text \<open>
  C10. Once the counter of a (verified) account has reached 5, a wrong-password login made when
  the previous lock has expired increments the counter and sets \<open>lockUntil\<close> to the time of the
  call plus 15 minutes, so the account is locked again at once. Seen from the answer: whenever a
  login call on an account whose counter has reached 5 is answered with the invalid-credentials
  error, it has incremented the counter and set that fresh lock. No login call lowers the
  counter of an account except a successful login to that account, which sets it to zero and
  clears the lock; the passing of time changes nothing in the record. (The handler increments
  the counter only after the verification gate, see \<open>login_unverified_untouched\<close>, so a counter
  that has reached 5 belongs to a verified account.)
\<close>

theorem relock_on_each_failure:
  "(findOne (byEmail em) (users st) = Some u \<and> isVerified u \<and> 5 \<le> orZero (loginAttempts u) \<and>
      passes E \<and> \<not> isLocked u (now E) \<and> \<not> comparePassword L pw (password u)
    \<longrightarrow> fst (login L E em pw st) = invalidCredentials \<and>
        (\<exists>u'. findOne (byEmail em) (users (snd (login L E em pw st))) = Some u' \<and>
           loginAttempts u' = Some (orZero (loginAttempts u) + 1) \<and>
           lockUntil u' = Some (now E + LOCK_WINDOW) \<and> isLocked u' (now E)))
   \<and> (findOne (byEmail emI) (users stI) = Some uI \<and> 5 \<le> orZero (loginAttempts uI) \<and>
      fst (login L EI emI pwI stI) = invalidCredentials
    \<longrightarrow> (\<exists>u'. findOne (byEmail emI) (users (snd (login L EI emI pwI stI))) = Some u' \<and>
          loginAttempts u' = Some (orZero (loginAttempts uI) + 1) \<and>
          lockUntil u' = Some (now EI + LOCK_WINDOW)))
   \<and> (findOne (byEmail emA) (users stA) = Some uA \<and>
      (fst (login L EA emB pwA stA) \<noteq> loginSuccessful \<or> emB \<noteq> emA)
    \<longrightarrow> (\<exists>u'. findOne (byEmail emA) (users (snd (login L EA emB pwA stA))) = Some u' \<and>
          orZero (loginAttempts uA) \<le> orZero (loginAttempts u')))
   \<and> (findOne (byEmail emS) (users stS) = Some uS \<and>
      fst (login L ES emS pwS stS) = loginSuccessful
    \<longrightarrow> (\<exists>u'. findOne (byEmail emS) (users (snd (login L ES emS pwS stS))) = Some u' \<and>
          loginAttempts u' = Some 0 \<and> lockUntil u' = None))"
proof (intro conjI impI)
  assume a: "findOne (byEmail em) (users st) = Some u \<and> isVerified u \<and> 5 \<le> orZero (loginAttempts u) \<and>
      passes E \<and> \<not> isLocked u (now E) \<and> \<not> comparePassword L pw (password u)"
  then show "fst (login L E em pw st) = invalidCredentials"
    using login_wrong(1)[of E em st u L pw] by simp
  from a have f: "findOne (byEmail em) (users (snd (login L E em pw st))) = Some (recordFailure (now E) u)"
    using login_wrong(2)[of E em st u L pw] by simp
  have "lockUntil (recordFailure (now E) u) = Some (now E + LOCK_WINDOW)" using a by simp
  moreover from this have "isLocked (recordFailure (now E) u) (now E)"
    by (simp add: isLocked_window LOCK_WINDOW_def)
  ultimately show "\<exists>u'. findOne (byEmail em) (users (snd (login L E em pw st))) = Some u' \<and>
           loginAttempts u' = Some (orZero (loginAttempts u) + 1) \<and>
           lockUntil u' = Some (now E + LOCK_WINDOW) \<and> isLocked u' (now E)"
    using f by simp
next
  assume a: "findOne (byEmail emI) (users stI) = Some uI \<and> 5 \<le> orZero (loginAttempts uI) \<and>
      fst (login L EI emI pwI stI) = invalidCredentials"
  then have "findOne (byEmail emI) (users (snd (login L EI emI pwI stI)))
      = Some (recordFailure (now EI) uI)"
    using invalidCredentials_on_account(2)[of emI stI uI L EI pwI] by blast
  with a show "\<exists>u'. findOne (byEmail emI) (users (snd (login L EI emI pwI stI))) = Some u' \<and>
          loginAttempts u' = Some (orZero (loginAttempts uI) + 1) \<and>
          lockUntil u' = Some (now EI + LOCK_WINDOW)"
    by simp
next
  assume a: "findOne (byEmail emA) (users stA) = Some uA \<and>
      (fst (login L EA emB pwA stA) \<noteq> loginSuccessful \<or> emB \<noteq> emA)"
  show "\<exists>u'. findOne (byEmail emA) (users (snd (login L EA emB pwA stA))) = Some u' \<and>
          orZero (loginAttempts uA) \<le> orZero (loginAttempts u')"
  proof (cases "emB = emA")
    case True
    then show ?thesis using a login_same_account[of emA stA uA L EA pwA] by auto
  next
    case False
    then show ?thesis using a login_other_account[of emA stA uA emB L EA pwA] by auto
  qed
next
  assume a: "findOne (byEmail emS) (users stS) = Some uS \<and>
      fst (login L ES emS pwS stS) = loginSuccessful"
  then show "\<exists>u'. findOne (byEmail emS) (users (snd (login L ES emS pwS stS))) = Some u' \<and>
          loginAttempts u' = Some 0 \<and> lockUntil u' = None"
    by (auto simp add: login_def findOne_updateOne split: if_splits)
qed

theorem relock_on_each_failure_witness:
  "fst (login exampleLib (requestAt 907000) ''a@x.com'' ''wrong'' (stateOf annLocked))
     = invalidCredentials
   \<and> map_option lockUntil (findOne (byEmail ''a@x.com'')
        (users (snd (login exampleLib (requestAt 907000) ''a@x.com'' ''wrong''
           (stateOf annLocked))))) = Some (Some (907000 + LOCK_WINDOW))
   \<and> map_option loginAttempts (findOne (byEmail ''a@x.com'')
        (users (snd (login exampleLib (requestAt 907000) ''a@x.com'' ''wrong''
           (stateOf annLocked))))) = Some (Some 6)
   \<and> (\<exists>u'. findOne (byEmail ''a@x.com'')
        (users (snd (login exampleLib (requestAt 8000) ''a@x.com'' ''Str0ng!Pw''
           (stateOf annLocked)))) = Some u' \<and> 5 \<le> orZero (loginAttempts u'))
   \<and> (\<exists>u'. findOne (byEmail ''a@x.com'')
        (users (snd (login exampleLib (requestAt 907000) ''a@x.com'' ''Str0ng!Pw''
           (stateOf annLocked)))) = Some u' \<and> loginAttempts u' = Some 0)"
proof -
  let ?st = "stateOf annLocked"
  have h1: "findOne (byEmail ''a@x.com'') (users ?st) = Some annLocked \<and>
      isVerified annLocked \<and> 5 \<le> orZero (loginAttempts annLocked) \<and>
      passes (requestAt 907000) \<and> \<not> isLocked annLocked (now (requestAt 907000)) \<and>
      \<not> comparePassword exampleLib ''wrong'' (password annLocked)"
    by (simp add: ex_defs)
  have h2: "fst (login exampleLib (requestAt 8000) ''a@x.com'' ''Str0ng!Pw'' ?st)
      \<noteq> loginSuccessful"
    by (simp add: ex_defs login_def)
  have h3: "fst (login exampleLib (requestAt 907000) ''a@x.com'' ''Str0ng!Pw'' ?st)
      = loginSuccessful"
    by (simp add: ex_defs login_def)
  have v: "orZero (loginAttempts annLocked) = 5" "now (requestAt 907000) = 907000"
    by (simp_all add: ex_defs)
  note t = relock_on_each_failure[where em = "''a@x.com''" and st = ?st
        and u = annLocked and E = "requestAt 907000" and pw = "''wrong''" and L = exampleLib
        and emI = "''a@x.com''" and stI = ?st and uI = annLocked
        and EI = "requestAt 907000" and pwI = "''wrong''"
        and emA = "''a@x.com''" and stA = ?st and uA = annLocked
        and EA = "requestAt 8000" and emB = "''a@x.com''" and pwA = "''Str0ng!Pw''"
        and emS = "''a@x.com''" and stS = ?st and uS = annLocked
        and ES = "requestAt 907000" and pwS = "''Str0ng!Pw''"]
  from t h1 have a: "fst (login exampleLib (requestAt 907000) ''a@x.com'' ''wrong'' ?st)
      = invalidCredentials \<and>
     (\<exists>u'. findOne (byEmail ''a@x.com'')
         (users (snd (login exampleLib (requestAt 907000) ''a@x.com'' ''wrong'' ?st))) = Some u' \<and>
        loginAttempts u' = Some (orZero (loginAttempts annLocked) + 1) \<and>
        lockUntil u' = Some (now (requestAt 907000) + LOCK_WINDOW) \<and>
        isLocked u' (now (requestAt 907000)))"
    by blast
  from a have "fst (login exampleLib (requestAt 907000) ''a@x.com'' ''wrong'' ?st)
      = invalidCredentials" by blast
  with t h1 have i: "\<exists>u'. findOne (byEmail ''a@x.com'')
        (users (snd (login exampleLib (requestAt 907000) ''a@x.com'' ''wrong'' ?st))) = Some u' \<and>
        loginAttempts u' = Some (orZero (loginAttempts annLocked) + 1) \<and>
        lockUntil u' = Some (now (requestAt 907000) + LOCK_WINDOW)"
    by blast
  from t h1 h2 have b: "\<exists>u'. findOne (byEmail ''a@x.com'')
        (users (snd (login exampleLib (requestAt 8000) ''a@x.com'' ''Str0ng!Pw'' ?st))) = Some u' \<and>
        orZero (loginAttempts annLocked) \<le> orZero (loginAttempts u')"
    by blast
  from t h1 h3 have c: "\<exists>u'. findOne (byEmail ''a@x.com'')
        (users (snd (login exampleLib (requestAt 907000) ''a@x.com'' ''Str0ng!Pw'' ?st)))
        = Some u' \<and> loginAttempts u' = Some 0 \<and> lockUntil u' = None"
    by blast
  from a i b c show ?thesis unfolding v by auto
qed



section \<open>Properties of the password-strength check\<close>

lemma score_sum:
  "score (checkPasswordStrength pw) =
     of_bool (8 \<le> length pw \<and> length pw \<le> 16) + of_bool (\<exists>c\<in>set pw. isLower c) +
     of_bool (\<exists>c\<in>set pw. isUpper c) + of_bool (\<exists>c\<in>set pw. isDigit c) +
     of_bool (\<exists>c\<in>set pw. isSpecial c)"
  by (simp add: checkPasswordStrength_def passwordChecks_def Let_def MIN_LENGTH_def
      MAX_LENGTH_def list_ex_iff)

lemma strength_class:
  "strength (checkPasswordStrength pw) =
     (if score (checkPasswordStrength pw) < 3 then weak
      else if score (checkPasswordStrength pw) < 5 then medium else strong)"
  by (simp add: checkPasswordStrength_def Let_def)

lemma isValid_score: "isValid (checkPasswordStrength pw) = (score (checkPasswordStrength pw) = 5)"
  by (simp add: checkPasswordStrength_def Let_def)

lemma score_le_5: "score (checkPasswordStrength pw) \<le> 5"
  by (simp add: score_sum of_bool_def)

lemma reply_success [simp]: "success (reply code ok msg) = ok" "success (replyErrors errs) = False"
  by (simp_all add: reply_def replyErrors_def)

lemma register_weak:
  assumes "\<not> isValid (checkPasswordStrength pw)"
  shows "success (fst (register L E em nm pw rl cpny st)) = False"
    and "snd (register L E em nm pw rl cpny st) = st"
  using assms by (simp_all add: register_def weakPassword_def)

lemma reset_password_weak:
  assumes "\<not> isValid (checkPasswordStrength pw)"
  shows "success (fst (reset_password L E tok pw st)) = False"
    and "snd (reset_password L E tok pw st) = st"
  using assms by (simp_all add: reset_password_def weakPassword_def)

lemma change_password_weak:
  assumes "\<not> isValid (checkPasswordStrength pw)"
  shows "success (fst (change_password L E reqUser cur pw st)) = False"
    and "snd (change_password L E reqUser cur pw st) = st"
  using assms by (simp_all add: change_password_def weakPassword_def split: option.splits)

lemmas strength_defs = checkPasswordStrength_def passwordChecks_def isLower_def isUpper_def
  isDigit_def isSpecial_def MIN_LENGTH_def MAX_LENGTH_def Let_def


text \<open>
  C2. The score of a password is the number of the five checks it satisfies (length between 8
  and 16, a lowercase letter, an uppercase letter, a digit, a character of \<open>@$!%*?&\<close>); the
  class is weak for a score below 3, medium for 3 or 4 and strong for 5; and whenever the score
  is below 5 the register, reset-password and change-password handlers answer with a failure and
  leave the state as it was, whatever the other inputs are.
\<close>

theorem password_strength_gate:
  "score (checkPasswordStrength pw) =
     of_bool (8 \<le> length pw \<and> length pw \<le> 16) + of_bool (\<exists>c\<in>set pw. isLower c) +
     of_bool (\<exists>c\<in>set pw. isUpper c) + of_bool (\<exists>c\<in>set pw. isDigit c) +
     of_bool (\<exists>c\<in>set pw. isSpecial c)
   \<and> (strength (checkPasswordStrength pw) = weak) = (score (checkPasswordStrength pw) < 3)
   \<and> (strength (checkPasswordStrength pw) = medium)
       = (score (checkPasswordStrength pw) = 3 \<or> score (checkPasswordStrength pw) = 4)
   \<and> (strength (checkPasswordStrength pw) = strong) = (score (checkPasswordStrength pw) = 5)
   \<and> (score (checkPasswordStrength pw) < 5 \<longrightarrow>
        success (fst (register L E em nm pw rl cpny st)) = False \<and>
        snd (register L E em nm pw rl cpny st) = st \<and>
        success (fst (reset_password L E tok pw st)) = False \<and>
        snd (reset_password L E tok pw st) = st \<and>
        success (fst (change_password L E reqUser cur pw st)) = False \<and>
        snd (change_password L E reqUser cur pw st) = st)"
proof (intro conjI impI)
  show "score (checkPasswordStrength pw) =
     of_bool (8 \<le> length pw \<and> length pw \<le> 16) + of_bool (\<exists>c\<in>set pw. isLower c) +
     of_bool (\<exists>c\<in>set pw. isUpper c) + of_bool (\<exists>c\<in>set pw. isDigit c) +
     of_bool (\<exists>c\<in>set pw. isSpecial c)"
    by (rule score_sum)
  show "(strength (checkPasswordStrength pw) = weak) = (score (checkPasswordStrength pw) < 3)"
    by (simp add: strength_class)
  show "(strength (checkPasswordStrength pw) = medium)
       = (score (checkPasswordStrength pw) = 3 \<or> score (checkPasswordStrength pw) = 4)"
    by (auto simp add: strength_class)
  show "(strength (checkPasswordStrength pw) = strong) = (score (checkPasswordStrength pw) = 5)"
    using score_le_5[of pw] by (auto simp add: strength_class)
next
  assume "score (checkPasswordStrength pw) < 5"
  then have w: "\<not> isValid (checkPasswordStrength pw)" by (simp add: isValid_score)
  show "success (fst (register L E em nm pw rl cpny st)) = False"
    "snd (register L E em nm pw rl cpny st) = st"
    "success (fst (reset_password L E tok pw st)) = False"
    "snd (reset_password L E tok pw st) = st"
    "success (fst (change_password L E reqUser cur pw st)) = False"
    "snd (change_password L E reqUser cur pw st) = st"
    using register_weak[OF w] reset_password_weak[OF w] change_password_weak[OF w] by simp_all
qed

theorem password_strength_gate_witness:
  "score (checkPasswordStrength ''Password1'') = 4
   \<and> strength (checkPasswordStrength ''Password1'') = medium
   \<and> success (fst (register exampleLib (requestAt 3000) ''b@x.com'' ''Bob'' ''Password1''
        ''employer'' None (stateOf ann))) = False
   \<and> snd (register exampleLib (requestAt 3000) ''b@x.com'' ''Bob'' ''Password1''
        ''employer'' None (stateOf ann)) = stateOf ann
   \<and> success (fst (reset_password exampleLib (requestAt 3000) ''c0ffee'' ''Password1''
        (stateOf ann))) = False
   \<and> success (fst (change_password exampleLib (requestAt 3000) (Some ''ann'') ''Str0ng!Pw''
        ''Password1'' (stateOf ann))) = False"
proof -
  have h: "score (checkPasswordStrength ''Password1'') = 4"
    by (simp add: strength_defs)
  note t = password_strength_gate[where pw = "''Password1''" and L = exampleLib
        and E = "requestAt 3000" and em = "''b@x.com''" and nm = "''Bob''" and rl = "''employer''"
        and cpny = None and st = "stateOf ann" and tok = "''c0ffee''" and reqUser = "Some ''ann''"
        and cur = "''Str0ng!Pw''"]
  note m = t[THEN conjunct2, THEN conjunct2, THEN conjunct1]
  note g = t[THEN conjunct2, THEN conjunct2, THEN conjunct2, THEN conjunct2]
  from h have "score (checkPasswordStrength ''Password1'') < 5" by simp
  with g h m show ?thesis by simp
qed


section \<open>Properties of forgot-password\<close>

text \<open>
  C3. The claim asks for the same envelope whether or not the e-mail has an account. Evaluated
  on the example account and on an address without an account, with delivery succeeding, the
  handler answers with two different messages.
\<close>

theorem forgot_password_reveals_account:
  "fst (forgot_password (requestAt 5000) ''a@x.com'' (stateOf ann))
     = reply 200 True ''Password reset link sent to your email''
   \<and> fst (forgot_password (requestAt 5000) ''nobody@x.com'' (stateOf ann))
     = reply 200 True
         ''If an account with this email exists, a password reset link has been sent''
   \<and> message (fst (forgot_password (requestAt 5000) ''a@x.com'' (stateOf ann)))
     \<noteq> message (fst (forgot_password (requestAt 5000) ''nobody@x.com'' (stateOf ann)))"
  by (simp add: forgot_password_def ex_defs reply_def)


section \<open>Properties of registration and e-mail verification\<close>

lemma oidValue_le_max: "d \<in> set us \<Longrightarrow> oidValue (uid d) \<le> foldr max (map (\<lambda>u. oidValue (uid u)) us) 0"
  by (induction us) auto

lemma uid_neq_freshId: "d \<in> set us \<Longrightarrow> uid d \<noteq> freshId us"
proof
  assume d: "d \<in> set us" and e: "uid d = freshId us"
  from e have "oidValue (uid d) = Suc (foldr max (map (\<lambda>u. oidValue (uid u)) us) 0)"
    by (simp add: freshId_def oidValue_def)
  with oidValue_le_max[OF d] show False by simp
qed

lemma deleteOne_append_last:
  "(\<And>d. d \<in> set ds \<Longrightarrow> \<not> p d) \<Longrightarrow> p x \<Longrightarrow> deleteOne p (ds @ [x]) = ds"
  by (induction ds) auto

lemma deleteOne_insertOne:
  "deleteOne (byId (snd (insertOne u us))) (fst (insertOne u us)) = us"
  unfolding insertOne_def fst_conv snd_conv
proof (rule deleteOne_append_last)
  fix d assume "d \<in> set us"
  then show "\<not> byId (freshId us) d" using uid_neq_freshId[of d us] by (simp add: byId_def)
next
  show "byId (freshId us) (u\<lparr>uid := freshId us\<rparr>)" by (simp add: byId_def)
qed

lemma findOne_append_last:
  "findOne p (ds @ [x]) = (case findOne p ds of Some d \<Rightarrow> Some d | None \<Rightarrow> if p x then Some x else None)"
  by (induction ds) auto


text \<open>
  C4. When a register call passes validation, the bot check and the strength check, finds no
  account for the e-mail and so inserts a new record, and the delivery of the verification code
  then fails, the answer is the delivery error (status 500) and the users collection is back to
  what it was: no record for that e-mail exists.
\<close>

theorem register_rolls_back:
  "validationErrors E = [] \<and> captchaIsValid E \<and> isValid (checkPasswordStrength pw) \<and>
   findOne (byEmail em) (users st) = None \<and> \<not> emailSuccess E
   \<longrightarrow> fst (register L E em nm pw rl cpny st) = deliveryFailed \<and>
       users (snd (register L E em nm pw rl cpny st)) = users st \<and>
       findOne (byEmail em) (users (snd (register L E em nm pw rl cpny st))) = None"
proof (intro impI)
  assume a: "validationErrors E = [] \<and> captchaIsValid E \<and> isValid (checkPasswordStrength pw) \<and>
    findOne (byEmail em) (users st) = None \<and> \<not> emailSuccess E"
  have d: "deleteOne (byId (snd (insertOne (newUser L E em nm pw rl cpny) (users st))))
      (fst (insertOne (newUser L E em nm pw rl cpny) (users st))) = users st"
    by (rule deleteOne_insertOne)
  from a show "fst (register L E em nm pw rl cpny st) = deliveryFailed \<and>
       users (snd (register L E em nm pw rl cpny st)) = users st \<and>
       findOne (byEmail em) (users (snd (register L E em nm pw rl cpny st))) = None"
    by (simp add: register_def Let_def case_prod_beta d)
qed

theorem register_rolls_back_witness:
  "fst (register exampleLib (failingDelivery 3000) ''b@x.com'' ''Bob'' ''Str0ng!Pw'' ''employer''
          None (stateOf ann)) = deliveryFailed
   \<and> users (snd (register exampleLib (failingDelivery 3000) ''b@x.com'' ''Bob'' ''Str0ng!Pw''
          ''employer'' None (stateOf ann))) = [ann]
   \<and> findOne (byEmail ''b@x.com'')
        (users (snd (register exampleLib (failingDelivery 3000) ''b@x.com'' ''Bob'' ''Str0ng!Pw''
          ''employer'' None (stateOf ann)))) = None"
proof -
  have v: "isValid (checkPasswordStrength ''Str0ng!Pw'')"
    by (simp add: checkPasswordStrength_def passwordChecks_def isLower_def isUpper_def
      isDigit_def isSpecial_def MIN_LENGTH_def MAX_LENGTH_def Let_def)
  have h: "validationErrors (failingDelivery 3000) = [] \<and> captchaIsValid (failingDelivery 3000) \<and>
      isValid (checkPasswordStrength ''Str0ng!Pw'') \<and>
      findOne (byEmail ''b@x.com'') (users (stateOf ann)) = None \<and>
      \<not> emailSuccess (failingDelivery 3000)"
    using v by (simp add: ex_defs failingDelivery_def)
  have u: "users (stateOf ann) = [ann]" by (simp add: stateOf_def)
  show ?thesis
    using register_rolls_back[where E = "failingDelivery 3000" and pw = "''Str0ng!Pw''"
        and em = "''b@x.com''" and st = "stateOf ann" and L = exampleLib and nm = "''Bob''"
        and rl = "''employer''" and cpny = None] h u
    by simp
qed

lemma byEmail_markVerified [simp]: "byEmail e (markVerified t u) = byEmail e u"
  by (simp add: byEmail_def markVerified_def)

lemma isVerified_markVerified [simp]: "isVerified (markVerified t u)"
  by (simp add: markVerified_def)

lemma verify_email_rejected:
  assumes "findOne (byEmail em) (users st) = Some u" "\<not> isVerified u"
    "otpRejected (otpStore st em) code (now E)"
  shows "success (fst (verify_email E em code st)) = False"
    and "snd (verify_email E em code st) = st"
    and "validationErrors E = [] \<Longrightarrow> fst (verify_email E em code st) = invalidOTP"
  using assms by (simp_all add: verify_email_def invalidOTP_def reply_def replyErrors_def)

lemma verify_email_flips_iff:
  assumes "findOne (byEmail em) (users st) = Some u" "\<not> isVerified u"
  shows "(\<exists>u'. findOne (byEmail em) (users (snd (verify_email E em code st))) = Some u' \<and> isVerified u')
     = (validationErrors E = [] \<and> \<not> otpRejected (otpStore st em) code (now E))"
  using assms by (simp add: verify_email_def findOne_updateOne)

lemma otpRejected_iff:
  "otpRejected s code t = (s = None \<or> (\<exists>e. s = Some e \<and> (otp e \<noteq> code \<or> expiry e < t)))"
  by (cases s) (auto simp: otpRejected_def)


text \<open>
  C6. For an unverified user, a verify-email call whose code is absent from the one-time-code
  store, differs from the stored code or arrives after its expiry is answered with a failure and
  leaves the whole state (user record and stored code) as it was; when the request is
  well-formed the answer is the invalid-code error. The record is verified after the call
  exactly when the request is well-formed and the stored code matches and has not expired.
\<close>

theorem verify_email_rejects_bad_code:
  "findOne (byEmail em) (users st) = Some u \<and> \<not> isVerified u
   \<longrightarrow> (otpStore st em = None \<or>
         (\<exists>e. otpStore st em = Some e \<and> (otp e \<noteq> code \<or> expiry e < now E))
        \<longrightarrow> success (fst (verify_email E em code st)) = False \<and>
            snd (verify_email E em code st) = st \<and>
            (validationErrors E = [] \<longrightarrow> fst (verify_email E em code st) = invalidOTP))
     \<and> ((\<exists>u'. findOne (byEmail em) (users (snd (verify_email E em code st))) = Some u' \<and>
              isVerified u')
        = (validationErrors E = [] \<and>
           (\<exists>e. otpStore st em = Some e \<and> otp e = code \<and> now E \<le> expiry e)))"
proof (intro impI conjI)
  assume a: "findOne (byEmail em) (users st) = Some u \<and> \<not> isVerified u"
  show "(\<exists>u'. findOne (byEmail em) (users (snd (verify_email E em code st))) = Some u' \<and>
              isVerified u')
        = (validationErrors E = [] \<and>
           (\<exists>e. otpStore st em = Some e \<and> otp e = code \<and> now E \<le> expiry e))"
    using a verify_email_flips_iff[of em st u E code]
    by (auto simp add: otpRejected_iff)
next
  assume a: "findOne (byEmail em) (users st) = Some u \<and> \<not> isVerified u"
    and b: "otpStore st em = None \<or>
         (\<exists>e. otpStore st em = Some e \<and> (otp e \<noteq> code \<or> expiry e < now E))"
  then have r: "otpRejected (otpStore st em) code (now E)" by (simp add: otpRejected_iff)
  show "success (fst (verify_email E em code st)) = False"
    "snd (verify_email E em code st) = st"
    using a r verify_email_rejected(1,2)[of em st u code E] by simp_all
  assume "validationErrors E = []"
  then show "fst (verify_email E em code st) = invalidOTP"
    using a r verify_email_rejected(3)[of em st u code E] by simp
qed

theorem verify_email_rejects_bad_code_witness:
  "verify_email (requestAt 5000) ''a@x.com'' ''000000'' pendingState = (invalidOTP, pendingState)
   \<and> verify_email (requestAt 700000) ''a@x.com'' ''123456'' pendingState
     = (invalidOTP, pendingState)
   \<and> (\<exists>u'. findOne (byEmail ''a@x.com'')
          (users (snd (verify_email (requestAt 5000) ''a@x.com'' ''123456'' pendingState)))
          = Some u' \<and> isVerified u')"
proof -
  let ?e = "\<lparr>otp = ''123456'', expiry = 601000, attempts = 0\<rparr>"
  have f: "findOne (byEmail ''a@x.com'') (users pendingState) = Some annUnverified \<and>
      \<not> isVerified annUnverified"
    by (simp add: pendingState_def ex_defs)
  have s: "otpStore pendingState ''a@x.com'' = Some ?e"
    by (simp add: pendingState_def ex_defs)
  have v: "validationErrors (requestAt 5000) = []" "validationErrors (requestAt 700000) = []"
    "now (requestAt 5000) = 5000" "now (requestAt 700000) = 700000"
    by (simp_all add: requestAt_def)
  have b1: "otpStore pendingState ''a@x.com'' = None \<or>
      (\<exists>e. otpStore pendingState ''a@x.com'' = Some e \<and>
         (otp e \<noteq> ''000000'' \<or> expiry e < now (requestAt 5000)))"
    using s by simp
  have b2: "otpStore pendingState ''a@x.com'' = None \<or>
      (\<exists>e. otpStore pendingState ''a@x.com'' = Some e \<and>
         (otp e \<noteq> ''123456'' \<or> expiry e < now (requestAt 700000)))"
    using s v by simp
  have g: "\<exists>e. otpStore pendingState ''a@x.com'' = Some e \<and> otp e = ''123456'' \<and>
      now (requestAt 5000) \<le> expiry e"
    using s v by simp
  note t1 = verify_email_rejects_bad_code[where em = "''a@x.com''" and st = pendingState
      and u = annUnverified and code = "''000000''" and E = "requestAt 5000"]
  note t2 = verify_email_rejects_bad_code[where em = "''a@x.com''" and st = pendingState
      and u = annUnverified and code = "''123456''" and E = "requestAt 700000"]
  note t3 = verify_email_rejects_bad_code[where em = "''a@x.com''" and st = pendingState
      and u = annUnverified and code = "''123456''" and E = "requestAt 5000"]
  from t1 f b1 v(1) have
    "fst (verify_email (requestAt 5000) ''a@x.com'' ''000000'' pendingState) = invalidOTP \<and>
     snd (verify_email (requestAt 5000) ''a@x.com'' ''000000'' pendingState) = pendingState"
    by blast
  then have r1:
    "verify_email (requestAt 5000) ''a@x.com'' ''000000'' pendingState = (invalidOTP, pendingState)"
    by (simp add: prod_eq_iff)
  from t2 f b2 v(2) have
    "fst (verify_email (requestAt 700000) ''a@x.com'' ''123456'' pendingState) = invalidOTP \<and>
     snd (verify_email (requestAt 700000) ''a@x.com'' ''123456'' pendingState) = pendingState"
    by blast
  then have r2:
    "verify_email (requestAt 700000) ''a@x.com'' ''123456'' pendingState
      = (invalidOTP, pendingState)"
    by (simp add: prod_eq_iff)
  from t3 f g v(1) have r3: "\<exists>u'. findOne (byEmail ''a@x.com'')
          (users (snd (verify_email (requestAt 5000) ''a@x.com'' ''123456'' pendingState)))
          = Some u' \<and> isVerified u'"
    by blast
  from r1 r2 r3 show ?thesis by blast
qed


section \<open>Properties of the MFA handlers\<close>

lemma byIdString_enableMFA [simp]: "byIdString i (enableMFA t u) = byIdString i u"
  by (simp add: byIdString_def enableMFA_def)

lemma mfaSecret_enableMFA [simp]: "mfaSecret (enableMFA t u) = None"
  by (simp add: enableMFA_def)

lemma verify_setup_success:
  assumes "success (fst (verify_setup L E userId token st))"
  shows "\<exists>u. findOne (byIdString userId) (users st) = Some u \<and>
           findOne (byIdString userId) (users (snd (verify_setup L E userId token st)))
             = Some (enableMFA (now E) u) \<and>
           mfaSecret (enableMFA (now E) u) = None"
  using assms
  by (auto simp add: verify_setup_def setupNotInitiated_def invalidMFAToken_def
      findOne_updateOne split: option.splits if_splits)


text \<open>
  C8. The claim has the secret stay on the record when the setup is confirmed. Evaluated on an
  account with a pending setup (one that the authentication in front of the route admits: its
  \<^verbatim>\<open>_id\<close> is the string the request carries) and a valid code, the handler enables MFA, clears the pending
  flag and removes the secret from the record, as it does on every successful confirmation
  (\<open>verify_setup_success\<close>).
\<close>

theorem verify_setup_discards_secret:
  "mfaSetupPending annPending \<and> mfaSecret annPending = Some ''JBSWY3DPEHPK3PXP''
   \<and> verifyMFAToken exampleLib 9000 ''123456'' ''JBSWY3DPEHPK3PXP''
   \<and> fst (verify_setup exampleLib (requestAt 9000) ''ann'' ''123456'' (stateOf annPending))
     = reply 200 True ''MFA enabled successfully''
   \<and> map_option mfaEnabled (findOne (byIdString ''ann'')
        (users (snd (verify_setup exampleLib (requestAt 9000) ''ann'' ''123456'' (stateOf annPending)))))
     = Some True
   \<and> map_option mfaSetupPending (findOne (byIdString ''ann'')
        (users (snd (verify_setup exampleLib (requestAt 9000) ''ann'' ''123456'' (stateOf annPending)))))
     = Some False
   \<and> map_option mfaSecret (findOne (byIdString ''ann'')
        (users (snd (verify_setup exampleLib (requestAt 9000) ''ann'' ''123456'' (stateOf annPending)))))
     = Some None"
  by (simp add: verify_setup_def ex_defs annPending_def byIdString_def enableMFA_def)

lemma findOne_in_set: "findOne p ds = Some d \<Longrightarrow> d \<in> set ds"
  by (induction ds) (auto split: if_splits)

lemma findOne_updateOne_byId:
  assumes "distinct (map uid ds)" "findOne p ds = Some u" "\<And>d. p (f d) = p d"
  shows "findOne p (updateOne (byId (uid u)) f ds) = Some (f u)"
  using assms
proof (induction ds)
  case Nil
  then show ?case by simp
next
  case (Cons d ds)
  show ?case
  proof (cases "p d")
    case True
    with Cons.prems show ?thesis by (simp add: byId_def)
  next
    case False
    with Cons.prems have f: "findOne p ds = Some u" by simp
    then have "u \<in> set ds" by (rule findOne_in_set)
    then have "uid u \<in> set (map uid ds)" by simp
    with Cons.prems(1) have "uid u \<noteq> uid d" by auto
    with False f Cons show ?thesis by (simp add: byId_def)
  qed
qed

lemma byEmail_useBackupCode [simp]: "byEmail e (useBackupCode t x u) = byEmail e u"
  by (simp add: byEmail_def useBackupCode_def)

lemma useBackupCode_fields [simp]:
  "mfaEnabled (useBackupCode t x u) = mfaEnabled u"
  "mfaBackupCodes u = Some codes \<Longrightarrow>
     mfaBackupCodes (useBackupCode t x u) = Some (filter (\<lambda>code. code \<noteq> toUpperCase x) codes)"
  by (simp_all add: useBackupCode_def)

lemma verify_backup_accepts:
  assumes "validationErrors E = []" "distinct (map uid (users st))"
    "findOne (byEmail em) (users st) = Some u" "mfaEnabled u" "mfaBackupCodes u = Some codes"
    "toUpperCase x \<in> set codes"
  shows "fst (verify_backup E em x st) = backupVerified"
    and "findOne (byEmail em) (users (snd (verify_backup E em x st)))
           = Some (useBackupCode (now E) x u)"
  using assms by (simp_all add: verify_backup_def verifyBackupCode_def findOne_updateOne_byId)

lemma verify_backup_refuses:
  assumes "validationErrors E = []"
    "findOne (byEmail em) (users st) = Some u" "mfaEnabled u" "mfaBackupCodes u = Some codes"
    "toUpperCase x \<notin> set codes"
  shows "verify_backup E em x st = (invalidBackupCode, st)"
  using assms by (simp add: verify_backup_def verifyBackupCode_def)


lemma toUpperChar_idem: "toUpperChar (toUpperChar c) = toUpperChar c"
proof (cases "isLower c")
  case True
  then have b: "97 \<le> (of_char c :: nat)" "(of_char c :: nat) \<le> 122" by (simp_all add: isLower_def)
  then have "(of_char (char_of (of_char c - (32::nat))) :: nat) = of_char c - 32"
    by simp
  with b have "\<not> isLower (char_of (of_char c - (32::nat)))" by (simp add: isLower_def)
  with True show ?thesis by (simp add: toUpperChar_def)
next
  case False
  then show ?thesis by (simp add: toUpperChar_def)
qed

lemma toUpperCase_idem: "toUpperCase (toUpperCase s) = toUpperCase s"
  by (simp add: toUpperCase_def toUpperChar_idem)

lemma generateBackupCodes_normalised:
  "c \<in> set (generateBackupCodes randomHex) \<Longrightarrow> toUpperCase c = c"
  by (auto simp add: generateBackupCodes_def toUpperCase_idem)

lemma generateBackupCodes_length: "length (generateBackupCodes randomHex) = 10"
  by (simp add: generateBackupCodes_def BACKUP_CODES_COUNT_def)

text \<open>
  C9. Let \<open>c\<close> be one of the stored backup codes of an MFA-enabled user, in the upper-case form
  in which codes are generated (\<open>generateBackupCodes_normalised\<close>), and let \<open>x\<close> be \<open>c\<close> in any letter case. Submitting \<open>x\<close> succeeds
  and leaves the stored codes without \<open>c\<close>; submitting \<open>x\<close> again is answered with the
  invalid-backup-code error and changes nothing. (Document ids are unique in the collection.)
\<close>

theorem backup_code_single_use:
  "validationErrors E = [] \<and> validationErrors E' = [] \<and> distinct (map uid (users st)) \<and>
   findOne (byEmail em) (users st) = Some u \<and> mfaEnabled u \<and> mfaBackupCodes u = Some codes \<and>
   c \<in> set codes \<and> toUpperCase c = c \<and> toUpperCase x = toUpperCase c
   \<longrightarrow> fst (verify_backup E em x st) = backupVerified \<and>
       (\<exists>u'. findOne (byEmail em) (users (snd (verify_backup E em x st))) = Some u' \<and>
          mfaEnabled u' \<and> mfaBackupCodes u' = Some (removeAll c codes)) \<and>
       c \<notin> set (removeAll c codes) \<and>
       verify_backup E' em x (snd (verify_backup E em x st))
         = (invalidBackupCode, snd (verify_backup E em x st))"
proof (intro impI)
  assume a: "validationErrors E = [] \<and> validationErrors E' = [] \<and> distinct (map uid (users st)) \<and>
   findOne (byEmail em) (users st) = Some u \<and> mfaEnabled u \<and> mfaBackupCodes u = Some codes \<and>
   c \<in> set codes \<and> toUpperCase c = c \<and> toUpperCase x = toUpperCase c"
  then have x: "toUpperCase x = c" by simp
  let ?st' = "snd (verify_backup E em x st)"
  let ?u' = "useBackupCode (now E) x u"
  have r: "fst (verify_backup E em x st) = backupVerified"
    using a x verify_backup_accepts(1)[of E st em u codes x] by simp
  have f: "findOne (byEmail em) (users ?st') = Some ?u'"
    using a x verify_backup_accepts(2)[of E st em u codes x] by simp
  have fl: "filter (\<lambda>code. code \<noteq> c) codes = removeAll c codes"
    by (induction codes) auto
  have m: "mfaEnabled ?u'" "mfaBackupCodes ?u' = Some (removeAll c codes)"
    using a x fl by simp_all
  have n: "toUpperCase x \<notin> set (removeAll c codes)" using x by simp
  have s: "verify_backup E' em x ?st' = (invalidBackupCode, ?st')"
    using a verify_backup_refuses[OF _ f m n, of E'] by simp
  from r f m s show "fst (verify_backup E em x st) = backupVerified \<and>
       (\<exists>u'. findOne (byEmail em) (users (snd (verify_backup E em x st))) = Some u' \<and>
          mfaEnabled u' \<and> mfaBackupCodes u' = Some (removeAll c codes)) \<and>
       c \<notin> set (removeAll c codes) \<and>
       verify_backup E' em x (snd (verify_backup E em x st))
         = (invalidBackupCode, snd (verify_backup E em x st))"
    by simp
qed

theorem backup_code_single_use_witness:
  "fst (verify_backup (requestAt 9000) ''a@x.com'' ''deadBeef'' (stateOf annMFA)) = backupVerified
   \<and> map_option mfaBackupCodes (findOne (byEmail ''a@x.com'')
        (users (snd (verify_backup (requestAt 9000) ''a@x.com'' ''deadBeef'' (stateOf annMFA)))))
     = Some (Some [''1A2B3C4D''])
   \<and> fst (verify_backup (requestAt 9500) ''a@x.com'' ''deadBeef''
        (snd (verify_backup (requestAt 9000) ''a@x.com'' ''deadBeef'' (stateOf annMFA))))
     = invalidBackupCode"
proof -
  have u: "toUpperCase ''deadBeef'' = ''DEADBEEF''" "toUpperCase ''DEADBEEF'' = ''DEADBEEF''"
    by code_simp+
  have h: "validationErrors (requestAt 9000) = [] \<and> validationErrors (requestAt 9500) = [] \<and>
     distinct (map uid (users (stateOf annMFA))) \<and>
     findOne (byEmail ''a@x.com'') (users (stateOf annMFA)) = Some annMFA \<and> mfaEnabled annMFA \<and>
     mfaBackupCodes annMFA = Some [''1A2B3C4D'', ''DEADBEEF''] \<and>
     ''DEADBEEF'' \<in> set [''1A2B3C4D'', ''DEADBEEF''] \<and> toUpperCase ''DEADBEEF'' = ''DEADBEEF'' \<and>
     toUpperCase ''deadBeef'' = toUpperCase ''DEADBEEF''"
    unfolding u by (simp add: ex_defs annMFA_def)
  have r: "removeAll ''DEADBEEF'' [''1A2B3C4D'', ''DEADBEEF''] = [''1A2B3C4D'']" by simp
  note t = backup_code_single_use[where E = "requestAt 9000" and E' = "requestAt 9500"
      and st = "stateOf annMFA" and em = "''a@x.com''" and u = annMFA
      and codes = "[''1A2B3C4D'', ''DEADBEEF'']" and c = "''DEADBEEF''" and x = "''deadBeef''"]
  from t h show ?thesis unfolding r by auto
qed



section \<open>Properties of password reset and change\<close>

lemmas hist_defs = resetStateOf_def annVeteran_def historyOf_def byId_def byIdString_def
  idString_def

lemma inHistory_iff: "inHistory L pw h = (\<exists>x\<in>set h. comparePassword L pw (item_password x))"
  by (induction h) auto

lemma byId_setPassword [simp]: "byId i (setPassword L t pw u) = byId i u"
  by (simp add: byId_def setPassword_def)

lemma byId_StringId: "byId (StringId s) = byIdString s"
  by (simp add: fun_eq_iff byId_def byIdString_def)

lemma findOne_byIdString_driverIds: "driverIds us \<Longrightarrow> findOne (byIdString s) us = None"
  by (induction us) (auto simp add: driverIds_def byIdString_def isObjectId_def)

lemma driverIds_insertOne: "driverIds us \<Longrightarrow> driverIds (fst (insertOne u us))"
  by (simp add: driverIds_def insertOne_def freshId_def isObjectId_def)

lemma setPassword_fields [simp]:
  "password (setPassword L t pw u) = hashPassword L pw"
  "historyOf (setPassword L t pw u) = newPasswordHistory L t pw (historyOf u)"
  by (simp_all add: setPassword_def historyOf_def)

lemma newPasswordHistory_eq:
  "newPasswordHistory L t pw h = \<lparr>item_password = hashPassword L pw, item_createdAt = t\<rparr> # take 4 h"
  by (simp add: newPasswordHistory_def PREVIOUS_PASSWORDS_COUNT_def)

lemma newPasswordHistory_length: "length (newPasswordHistory L t pw h) \<le> 5"
  by (simp add: newPasswordHistory_eq)

lemma newPasswordHistory_sorted:
  assumes "mostRecentFirst h" "\<forall>x\<in>set h. item_createdAt x \<le> t"
  shows "mostRecentFirst (newPasswordHistory L t pw h)"
  using assms
  by (auto simp add: mostRecentFirst_def newPasswordHistory_eq sorted_wrt_take dest: in_set_takeD)

lemma reset_password_reused:
  assumes "passwordResetTokens st tok = Some rd"
    "findOne (byIdString (reset_userId rd)) (users st) = Some u"
    "inHistory L pw (historyOf u)"
  shows "success (fst (reset_password L E tok pw st)) = False"
    and "snd (reset_password L E tok pw st) = st"
  using assms
  by (simp_all add: reset_password_def weakPassword_def invalidResetToken_def reusedPassword_def)

lemma change_password_reused:
  assumes "findOne (byIdString i) (users st) = Some u" "inHistory L pw (historyOf u)"
  shows "success (fst (change_password L E (Some i) cur pw st)) = False"
    and "snd (change_password L E (Some i) cur pw st) = st"
  using assms
  by (simp_all add: change_password_def weakPassword_def reusedPassword_def)

lemma reset_password_success:
  assumes "success (fst (reset_password L E tok pw st))"
  shows "\<exists>rd u. passwordResetTokens st tok = Some rd \<and>
           findOne (byIdString (reset_userId rd)) (users st) = Some u \<and>
           findOne (byIdString (reset_userId rd)) (users (snd (reset_password L E tok pw st)))
             = Some (setPassword L (now E) pw u)"
proof -
  from assms obtain rd where rd: "passwordResetTokens st tok = Some rd"
    by (auto simp add: reset_password_def weakPassword_def invalidResetToken_def
        split: if_splits option.splits)
  from assms rd obtain u where u: "findOne (byIdString (reset_userId rd)) (users st) = Some u"
    by (auto simp add: reset_password_def weakPassword_def invalidResetToken_def
        split: if_splits option.splits)
  from u have "uid u = StringId (reset_userId rd)"
    using findOne_holds[OF u] by (simp add: byIdString_def)
  then have i: "byId (uid u) = byIdString (reset_userId rd)" by (simp add: byId_StringId)
  from assms rd u have "snd (reset_password L E tok pw st) =
      st\<lparr>users := updateOne (byId (uid u)) (setPassword L (now E) pw) (users st),
         passwordResetTokens := (passwordResetTokens st)(tok := None)\<rparr>"
    by (auto simp add: reset_password_def weakPassword_def invalidResetToken_def
        reusedPassword_def split: if_splits)
  then have "findOne (byIdString (reset_userId rd)) (users (snd (reset_password L E tok pw st)))
             = Some (setPassword L (now E) pw u)"
    using u byId_setPassword[of "uid u"] unfolding i by (simp add: findOne_updateOne)
  with rd u show ?thesis by blast
qed

lemma change_password_success:
  assumes "success (fst (change_password L E reqUser cur pw st))"
  shows "\<exists>i u. reqUser = Some i \<and> findOne (byIdString i) (users st) = Some u \<and>
           findOne (byIdString i) (users (snd (change_password L E reqUser cur pw st)))
             = Some (setPassword L (now E) pw u)"
proof -
  from assms obtain j where r: "reqUser = Some j"
    by (auto simp add: change_password_def split: if_splits option.splits)
  from assms r obtain u where u: "findOne (byIdString j) (users st) = Some u"
    by (auto simp add: change_password_def weakPassword_def split: if_splits option.splits)
  from u have "uid u = StringId j" using findOne_holds[OF u] by (simp add: byIdString_def)
  then have i: "byId (uid u) = byIdString j" by (simp add: byId_StringId)
  from assms r u have "snd (change_password L E reqUser cur pw st) =
      st\<lparr>users := updateOne (byId (uid u)) (setPassword L (now E) pw) (users st)\<rparr>"
    by (auto simp add: change_password_def weakPassword_def reusedPassword_def split: if_splits)
  then have "findOne (byIdString j) (users (snd (change_password L E reqUser cur pw st)))
             = Some (setPassword L (now E) pw u)"
    using u byId_setPassword[of "uid u"] unfolding i by (simp add: findOne_updateOne)
  with r u show ?thesis by blast
qed

lemma historyUpdated_setPassword: "historyUpdated L t pw u (setPassword L t pw u)"
  unfolding historyUpdated_def
  using newPasswordHistory_sorted[of "historyOf u" t L pw] newPasswordHistory_length[of L t pw "historyOf u"]
  by (simp add: newPasswordHistory_eq)

text \<open>
  In a collection that holds only documents with the driver's ObjectIds, as every document that
  register inserts is, the lookup by string finds nobody: reset-password and change-password
  never succeed and never write, and a reset with a live token, issued by forgot-password for a
  registered account, ends with status 404.
\<close>

lemma reset_password_driverIds:
  assumes "driverIds (users st)"
  shows "success (fst (reset_password L E tok pw st)) = False"
    and "snd (reset_password L E tok pw st) = st"
  using findOne_byIdString_driverIds[OF assms]
  by (simp_all add: reset_password_def weakPassword_def invalidResetToken_def
      split: option.splits)

lemma change_password_driverIds:
  assumes "driverIds (users st)"
  shows "success (fst (change_password L E reqUser cur pw st)) = False"
    and "snd (change_password L E reqUser cur pw st) = st"
  using findOne_byIdString_driverIds[OF assms]
  by (simp_all add: change_password_def weakPassword_def split: option.splits)

lemma change_password_unauthenticated:
  "success (fst (change_password L E None cur pw st)) = False"
  "snd (change_password L E None cur pw st) = st"
  by (simp_all add: change_password_def)

lemma register_keeps_driverIds:
  assumes "driverIds (users st)"
  shows "driverIds (users (snd (register L E em nm pw rl cpny st)))"
proof -
  have "driverIds (fst (insertOne (newUser L E em nm pw rl cpny) (users st)))"
    using assms by (rule driverIds_insertOne)
  then show ?thesis
    using assms
    by (simp add: register_def Let_def case_prod_beta deleteOne_insertOne split: option.splits)
qed

lemma reset_after_forgot_registered:
  assumes "driverIds (users st)" "findOne (byEmail em) (users st) = Some u"
    and "validationErrors E = []" "validationErrors E' = []"
    and "isValid (checkPasswordStrength pw)" "now E' \<le> now E + 60 * 60 * 1000"
  shows "fst (reset_password L E' (generatedToken E) pw (snd (forgot_password E em st)))
           = reply 404 False ''User not found''"
  using assms findOne_byIdString_driverIds[OF assms(1)]
  by (simp add: forgot_password_def reset_password_def Let_def)

text \<open>
  C5. Reset-password and change-password answer with a failure and change nothing when the new
  password matches (under the hash comparison) any entry of the stored history of the user they
  have looked up. When they succeed, the stored record carries the new hash, its history is the
  new entry followed by the four most recent older entries, so it never has more than five
  entries, and a history ordered most-recent first stays so (no stored entry being dated after
  the request). Success needs a document whose \<^verbatim>\<open>_id\<close> is the string the handler looks up, and
  in change-password a request that carries \<^verbatim>\<open>req.user\<close>: in a collection of documents with
  ObjectIds both handlers reject every request and write nothing, and so does change-password
  for a request without \<^verbatim>\<open>req.user\<close>.
\<close>

theorem password_history_policy:
  "(passwordResetTokens st tok = Some rd \<and>
      findOne (byIdString (reset_userId rd)) (users st) = Some u \<and>
      h \<in> set (historyOf u) \<and> comparePassword L pw (item_password h)
    \<longrightarrow> success (fst (reset_password L E tok pw st)) = False \<and>
        snd (reset_password L E tok pw st) = st)
   \<and> (findOne (byIdString i) (users stC) = Some uC \<and>
      hC \<in> set (historyOf uC) \<and> comparePassword L pwC (item_password hC)
    \<longrightarrow> success (fst (change_password L EC (Some i) curC pwC stC)) = False \<and>
        snd (change_password L EC (Some i) curC pwC stC) = stC)
   \<and> (success (fst (reset_password L ER tokR pwR stR))
    \<longrightarrow> (\<exists>rd u u'. passwordResetTokens stR tokR = Some rd \<and>
          findOne (byIdString (reset_userId rd)) (users stR) = Some u \<and>
          findOne (byIdString (reset_userId rd)) (users (snd (reset_password L ER tokR pwR stR)))
            = Some u' \<and>
          historyUpdated L (now ER) pwR u u'))
   \<and> (success (fst (change_password L EP reqUser curP pwP stP))
    \<longrightarrow> (\<exists>j u u'. reqUser = Some j \<and> findOne (byIdString j) (users stP) = Some u \<and>
          findOne (byIdString j) (users (snd (change_password L EP reqUser curP pwP stP)))
            = Some u' \<and>
          historyUpdated L (now EP) pwP u u'))
   \<and> (driverIds (users stD)
    \<longrightarrow> success (fst (reset_password L ED tokD pwD stD)) = False \<and>
        snd (reset_password L ED tokD pwD stD) = stD \<and>
        success (fst (change_password L ED reqD curD pwD stD)) = False \<and>
        snd (change_password L ED reqD curD pwD stD) = stD)
   \<and> success (fst (change_password L EN None curN pwN stN)) = False
   \<and> snd (change_password L EN None curN pwN stN) = stN"
proof (intro conjI impI)
  assume a: "passwordResetTokens st tok = Some rd \<and>
      findOne (byIdString (reset_userId rd)) (users st) = Some u \<and>
      h \<in> set (historyOf u) \<and> comparePassword L pw (item_password h)"
  then have "inHistory L pw (historyOf u)" by (auto simp add: inHistory_iff)
  with a show "success (fst (reset_password L E tok pw st)) = False"
    "snd (reset_password L E tok pw st) = st"
    using reset_password_reused[of st tok rd u L pw E] by simp_all
next
  assume a: "findOne (byIdString i) (users stC) = Some uC \<and>
      hC \<in> set (historyOf uC) \<and> comparePassword L pwC (item_password hC)"
  then have "inHistory L pwC (historyOf uC)" by (auto simp add: inHistory_iff)
  with a show "success (fst (change_password L EC (Some i) curC pwC stC)) = False"
    "snd (change_password L EC (Some i) curC pwC stC) = stC"
    using change_password_reused[of i stC uC L pwC EC curC] by simp_all
next
  assume "success (fst (reset_password L ER tokR pwR stR))"
  then show "\<exists>rd u u'. passwordResetTokens stR tokR = Some rd \<and>
          findOne (byIdString (reset_userId rd)) (users stR) = Some u \<and>
          findOne (byIdString (reset_userId rd)) (users (snd (reset_password L ER tokR pwR stR)))
            = Some u' \<and>
          historyUpdated L (now ER) pwR u u'"
    using reset_password_success[of L ER tokR pwR stR] historyUpdated_setPassword by blast
next
  assume "success (fst (change_password L EP reqUser curP pwP stP))"
  then show "\<exists>j u u'. reqUser = Some j \<and> findOne (byIdString j) (users stP) = Some u \<and>
          findOne (byIdString j) (users (snd (change_password L EP reqUser curP pwP stP)))
            = Some u' \<and>
          historyUpdated L (now EP) pwP u u'"
    using change_password_success[of L EP reqUser curP pwP stP] historyUpdated_setPassword by blast
next
  assume d: "driverIds (users stD)"
  show "success (fst (reset_password L ED tokD pwD stD)) = False"
    "snd (reset_password L ED tokD pwD stD) = stD"
    using reset_password_driverIds[OF d] by simp_all
  show "success (fst (change_password L ED reqD curD pwD stD)) = False"
    "snd (change_password L ED reqD curD pwD stD) = stD"
    using change_password_driverIds[OF d] by simp_all
next
  show "success (fst (change_password L EN None curN pwN stN)) = False"
    "snd (change_password L EN None curN pwN stN) = stN"
    by (rule change_password_unauthenticated)+
qed

theorem password_history_policy_witness:
  "success (fst (reset_password exampleLib (requestAt 9000) ''c0ffee'' ''Third!Pw3''
       (resetStateOf annVeteran))) = False
   \<and> snd (reset_password exampleLib (requestAt 9000) ''c0ffee'' ''Third!Pw3''
       (resetStateOf annVeteran)) = resetStateOf annVeteran
   \<and> success (fst (change_password exampleLib (requestAt 9000) (Some ''ann'') ''Fifth!Pw5''
       ''Third!Pw3'' (stateOf annVeteran))) = False
   \<and> (\<exists>u'. findOne (byIdString ''ann'') (users (snd (reset_password exampleLib (requestAt 9000)
         ''c0ffee'' ''Sixth!Pw6'' (resetStateOf annVeteran)))) = Some u' \<and>
        map item_createdAt (historyOf u') = [9000, 5000, 4000, 3000, 2000])
   \<and> (\<exists>u'. findOne (byIdString ''ann'') (users (snd (change_password exampleLib (requestAt 9000)
         (Some ''ann'') ''Fifth!Pw5'' ''Sixth!Pw6'' (stateOf annVeteran)))) = Some u' \<and>
        map item_createdAt (historyOf u') = [9000, 5000, 4000, 3000, 2000] \<and>
        mostRecentFirst (historyOf u'))
   \<and> uid ann = ObjectId 1
   \<and> success (fst (reset_password exampleLib (requestAt 9000) ''c0ffee'' ''Sixth!Pw6''
       (resetStateOf ann))) = False
   \<and> snd (reset_password exampleLib (requestAt 9000) ''c0ffee'' ''Sixth!Pw6''
       (resetStateOf ann)) = resetStateOf ann"
proof -
  let ?h3 = "\<lparr>item_password = ''bcrypt:Third!Pw3'', item_createdAt = 3000\<rparr>"
  let ?rd = "\<lparr>reset_userId = ''ann'', reset_email = ''a@x.com'', reset_expiry = 3605000\<rparr>"
  have v6: "isValid (checkPasswordStrength ''Sixth!Pw6'')"
    by (simp add: strength_defs)
  have f: "findOne (byIdString ''ann'') (users (resetStateOf annVeteran)) = Some annVeteran"
    "findOne (byIdString ''ann'') (users (stateOf annVeteran)) = Some annVeteran"
    "passwordResetTokens (resetStateOf annVeteran) ''c0ffee'' = Some ?rd"
    by (simp_all add: hist_defs ex_defs)
  have m: "?h3 \<in> set (historyOf annVeteran) \<and>
      comparePassword exampleLib ''Third!Pw3'' (item_password ?h3)"
    by (simp add: hist_defs ex_defs)
  have h1: "passwordResetTokens (resetStateOf annVeteran) ''c0ffee'' = Some ?rd \<and>
      findOne (byIdString (reset_userId ?rd)) (users (resetStateOf annVeteran))
        = Some annVeteran \<and>
      ?h3 \<in> set (historyOf annVeteran) \<and>
      comparePassword exampleLib ''Third!Pw3'' (item_password ?h3)"
    using f m by simp
  have h2: "findOne (byIdString ''ann'') (users (stateOf annVeteran)) = Some annVeteran \<and>
      ?h3 \<in> set (historyOf annVeteran) \<and>
      comparePassword exampleLib ''Third!Pw3'' (item_password ?h3)"
    using f m by simp
  have h3: "success (fst (reset_password exampleLib (requestAt 9000) ''c0ffee'' ''Sixth!Pw6''
       (resetStateOf annVeteran)))"
    using v6 by (simp add: reset_password_def hist_defs ex_defs)
  have h4: "success (fst (change_password exampleLib (requestAt 9000) (Some ''ann'')
       ''Fifth!Pw5'' ''Sixth!Pw6'' (stateOf annVeteran)))"
    using v6 by (simp add: change_password_def hist_defs ex_defs)
  have h5: "driverIds (users (resetStateOf ann))" "uid ann = ObjectId 1"
    by (simp_all add: driverIds_def isObjectId_def resetStateOf_def stateOf_def ann_def)
  have old: "map item_createdAt (take 4 (historyOf annVeteran)) = [5000, 4000, 3000, 2000]"
    "mostRecentFirst (historyOf annVeteran)"
    "\<forall>x\<in>set (historyOf annVeteran). item_createdAt x \<le> 9000"
    by (simp_all add: hist_defs ex_defs mostRecentFirst_def)
  have n: "now (requestAt 9000) = 9000" by (simp add: requestAt_def)
  note t = password_history_policy[where L = exampleLib
      and st = "resetStateOf annVeteran" and tok = "''c0ffee''" and rd = ?rd
      and u = annVeteran and h = ?h3 and pw = "''Third!Pw3''" and E = "requestAt 9000"
      and i = "''ann''" and stC = "stateOf annVeteran" and uC = annVeteran and hC = ?h3
      and pwC = "''Third!Pw3''" and EC = "requestAt 9000" and curC = "''Fifth!Pw5''"
      and ER = "requestAt 9000" and tokR = "''c0ffee''" and pwR = "''Sixth!Pw6''"
      and stR = "resetStateOf annVeteran"
      and EP = "requestAt 9000" and reqUser = "Some ''ann''" and curP = "''Fifth!Pw5''"
      and pwP = "''Sixth!Pw6''" and stP = "stateOf annVeteran"
      and stD = "resetStateOf ann" and ED = "requestAt 9000" and tokD = "''c0ffee''"
      and pwD = "''Sixth!Pw6''"]
  from t[THEN conjunct1, THEN mp, OF h1] have r1: "success (fst (reset_password exampleLib (requestAt 9000) ''c0ffee''
       ''Third!Pw3'' (resetStateOf annVeteran))) = False \<and>
     snd (reset_password exampleLib (requestAt 9000) ''c0ffee'' ''Third!Pw3''
       (resetStateOf annVeteran)) = resetStateOf annVeteran"
    .
  from t[THEN conjunct2, THEN conjunct1, THEN mp, OF h2] have r2: "success (fst (change_password exampleLib (requestAt 9000) (Some ''ann'')
       ''Fifth!Pw5'' ''Third!Pw3'' (stateOf annVeteran))) = False"
    by (rule conjunct1)
  note tR = t[THEN conjunct2, THEN conjunct2, THEN conjunct1, THEN mp, OF h3]
  from tR obtain rd u u' where r3c:
    "passwordResetTokens (resetStateOf annVeteran) ''c0ffee'' = Some rd \<and>
    findOne (byIdString (reset_userId rd)) (users (resetStateOf annVeteran)) = Some u \<and>
    findOne (byIdString (reset_userId rd)) (users (snd (reset_password exampleLib
        (requestAt 9000) ''c0ffee'' ''Sixth!Pw6'' (resetStateOf annVeteran)))) = Some u' \<and>
    historyUpdated exampleLib (now (requestAt 9000)) ''Sixth!Pw6'' u u'"
    by (elim exE) (rule that)
  note r3 = r3c[THEN conjunct1] r3c[THEN conjunct2, THEN conjunct1]
    r3c[THEN conjunct2, THEN conjunct2, THEN conjunct1]
    r3c[THEN conjunct2, THEN conjunct2, THEN conjunct2]
  from r3(1) f(3) have rd: "reset_userId rd = ''ann''" by auto
  from r3(2) rd f(1) have u: "u = annVeteran" by simp
  from r3(4) u old n have r3': "map item_createdAt (historyOf u') = [9000, 5000, 4000, 3000, 2000]"
    by (simp add: historyUpdated_def)
  note tP = t[THEN conjunct2, THEN conjunct2, THEN conjunct2, THEN conjunct1, THEN mp, OF h4]
  from tP obtain j w w' where r4c: "Some ''ann'' = Some j \<and>
    findOne (byIdString j) (users (stateOf annVeteran)) = Some w \<and>
    findOne (byIdString j) (users (snd (change_password exampleLib (requestAt 9000)
         (Some ''ann'') ''Fifth!Pw5'' ''Sixth!Pw6'' (stateOf annVeteran)))) = Some w' \<and>
    historyUpdated exampleLib (now (requestAt 9000)) ''Sixth!Pw6'' w w'"
    by (elim exE) (rule that)
  note r4 = r4c[THEN conjunct1] r4c[THEN conjunct2, THEN conjunct1]
    r4c[THEN conjunct2, THEN conjunct2, THEN conjunct1]
    r4c[THEN conjunct2, THEN conjunct2, THEN conjunct2]
  from r4(1) have j: "j = ''ann''" by simp
  from r4(2) j f(2) have w: "w = annVeteran" by simp
  from r4(4) w old n have r4': "map item_createdAt (historyOf w') = [9000, 5000, 4000, 3000, 2000]"
    by (simp add: historyUpdated_def)
  from r4(4) w old(2,3) have r4s: "mostRecentFirst (historyOf w')"
    unfolding historyUpdated_def n by blast
  from t[THEN conjunct2, THEN conjunct2, THEN conjunct2, THEN conjunct2, THEN conjunct1,
      THEN mp, OF h5(1)] have r5: "success (fst (reset_password exampleLib (requestAt 9000) ''c0ffee''
       ''Sixth!Pw6'' (resetStateOf ann))) = False \<and>
     snd (reset_password exampleLib (requestAt 9000) ''c0ffee'' ''Sixth!Pw6''
       (resetStateOf ann)) = resetStateOf ann"
    by simp
  have e3: "\<exists>u'. findOne (byIdString ''ann'') (users (snd (reset_password exampleLib
         (requestAt 9000) ''c0ffee'' ''Sixth!Pw6'' (resetStateOf annVeteran)))) = Some u' \<and>
        map item_createdAt (historyOf u') = [9000, 5000, 4000, 3000, 2000]"
    using r3(3) r3' unfolding rd by (intro exI conjI)
  have e4: "\<exists>u'. findOne (byIdString ''ann'') (users (snd (change_password exampleLib
         (requestAt 9000) (Some ''ann'') ''Fifth!Pw5'' ''Sixth!Pw6'' (stateOf annVeteran))))
         = Some u' \<and>
        map item_createdAt (historyOf u') = [9000, 5000, 4000, 3000, 2000] \<and>
        mostRecentFirst (historyOf u')"
    using r4(3) r4' r4s unfolding j by (intro exI conjI)
  from r1 r2 e3 e4 h5(2) r5 show ?thesis by (intro conjI) (elim conjE, assumption)+
qed

end
